theory Spec2Isabelle
  imports Complex_Main
begin

section \<open>Data model\<close>

text \<open>
  The playback state machine of \<^verbatim>\<open>PlaybackControls\<close> (the first class of
  \<^verbatim>\<open>src/unnamed/part_000\<close>, with \<^verbatim>\<open>state-machine.ts\<close>).

  The class is embedded with explicit state passing. Every private field the state machine
  reads or writes is a field of the record \<open>PlaybackControls\<close>; the objects the code shares
  by reference (the \<^verbatim>\<open>TimeBasedState\<close> object, the \<^verbatim>\<open>run\<close> closures of
  \<^verbatim>\<open>#startTimer\<close>) live in explicit stores. What the environment owns is explicit too:
  the animation frames scheduled with \<^verbatim>\<open>requestAnimationFrame\<close>, the pending
  (abortable) promises with the reactions the code registered on them, the custom events
  dispatched, and the calls made to the listener's hooks.

  Presentation is left out: the DOM construction, the progress element's value and the
  tick labels (no \<^verbatim>\<open>ticks\<close> configured). The \<^verbatim>\<open>disabled\<close> attribute of the four
  control buttons is kept, because \<^verbatim>\<open>#clicked\<close> reads it.
\<close>

datatype PlaybackState = STOPPED | PLAYING | FINISHED | PAUSED | PLAYING_BACKWARDS

text \<open>
  A JavaScript number as far as the state machine distinguishes it: a finite value, the two
  infinities, or NaN. Finite values are reals: rounding and the sign of zero are not
  modelled. Comparisons with NaN are false, as in JavaScript.
\<close>

datatype jsnum = Fin real | PosInf | NegInf | NaN

fun js_lt :: "jsnum \<Rightarrow> jsnum \<Rightarrow> bool" where
  "js_lt (Fin a) (Fin b) = (a < b)"
| "js_lt (Fin a) PosInf = True"
| "js_lt (Fin a) NegInf = False"
| "js_lt (Fin a) NaN = False"
| "js_lt PosInf b = False"
| "js_lt NegInf (Fin b) = True"
| "js_lt NegInf PosInf = True"
| "js_lt NegInf NegInf = False"
| "js_lt NegInf NaN = False"
| "js_lt NaN b = False"

definition js_gt :: "jsnum \<Rightarrow> jsnum \<Rightarrow> bool" where
  "js_gt a b = js_lt b a"

definition js_le :: "jsnum \<Rightarrow> jsnum \<Rightarrow> bool" where
  "js_le a b = (a \<noteq> NaN \<and> b \<noteq> NaN \<and> \<not> js_lt b a)"

definition js_ge :: "jsnum \<Rightarrow> jsnum \<Rightarrow> bool" where
  "js_ge a b = js_le b a"

text \<open>Strict equality \<^verbatim>\<open>===\<close> on numbers: NaN is not equal to itself.\<close>

definition js_eq :: "jsnum \<Rightarrow> jsnum \<Rightarrow> bool" where
  "js_eq a b = (a \<noteq> NaN \<and> a = b)"

fun isFinite :: "jsnum \<Rightarrow> bool" where
  "isFinite (Fin a) = True"
| "isFinite PosInf = False"
| "isFinite NegInf = False"
| "isFinite NaN = False"

fun js_neg :: "jsnum \<Rightarrow> jsnum" where
  "js_neg (Fin a) = Fin (- a)"
| "js_neg PosInf = NegInf"
| "js_neg NegInf = PosInf"
| "js_neg NaN = NaN"

fun js_add :: "jsnum \<Rightarrow> jsnum \<Rightarrow> jsnum" where
  "js_add (Fin a) (Fin b) = Fin (a + b)"
| "js_add (Fin a) PosInf = PosInf"
| "js_add (Fin a) NegInf = NegInf"
| "js_add (Fin a) NaN = NaN"
| "js_add PosInf (Fin b) = PosInf"
| "js_add PosInf PosInf = PosInf"
| "js_add PosInf NegInf = NaN"
| "js_add PosInf NaN = NaN"
| "js_add NegInf (Fin b) = NegInf"
| "js_add NegInf PosInf = NaN"
| "js_add NegInf NegInf = NegInf"
| "js_add NegInf NaN = NaN"
| "js_add NaN b = NaN"

definition js_sub :: "jsnum \<Rightarrow> jsnum \<Rightarrow> jsnum" where
  "js_sub a b = js_add a (js_neg b)"

text \<open>\<^verbatim>\<open>Math.min\<close> and \<^verbatim>\<open>Math.max\<close> of two numbers: NaN if either is NaN.\<close>

definition js_min :: "jsnum \<Rightarrow> jsnum \<Rightarrow> jsnum" where
  "js_min a b = (if a = NaN \<or> b = NaN then NaN else if js_lt b a then b else a)"

definition js_max :: "jsnum \<Rightarrow> jsnum \<Rightarrow> jsnum" where
  "js_max a b = (if a = NaN \<or> b = NaN then NaN else if js_lt a b then b else a)"

text \<open>
  \<^verbatim>\<open>MutablePlaybackStateInfo\<close>: the object held in the private field \<^verbatim>\<open>#state\<close>.
  \<open>time\<close> is a reference into the store of \<^verbatim>\<open>TimeBasedState\<close> objects (absent when the
  property is deleted). A spread copy \<^verbatim>\<open>{...state}\<close> is a value of this record.
\<close>

record PlaybackStateInfo =
  state :: PlaybackState
  fraction :: jsnum
  isSuspended :: bool
  time :: "nat option"

definition isPlaying :: "PlaybackStateInfo \<Rightarrow> bool" where
  "isPlaying s = (state s = PLAYING \<or> state s = PLAYING_BACKWARDS)"

record TimeBasedState =
  millisElapsed :: "real option"
  timer :: "nat option"
  durationMillis :: real

record PlaybackTransition =
  t_from :: PlaybackStateInfo
  t_to :: PlaybackStateInfo

subsection \<open>The animation listener\<close>

text \<open>
  What a hook returns synchronously: \<open>Nothing\<close> is \<^verbatim>\<open>undefined\<close> or \<^verbatim>\<open>null\<close>,
  \<open>Immediate v\<close> a plain value, \<open>Deferred\<close> a promise. The promise is settled later by the
  environment (see \<open>settle\<close>).
\<close>

datatype 'a hook_result = Nothing | Immediate 'a | Deferred

datatype StepResult = StepFalse | StepNumber jsnum

datatype stopped_outcome = Returned | Threw

text \<open>
  The listener's hooks are functions of the state of the world outside the machine (\<open>'w\<close>,
  which a hook may change) and of their arguments. \<^verbatim>\<open>start\<close>, \<^verbatim>\<open>stopped\<close> and
  \<^verbatim>\<open>step\<close> are optional. The hooks \<^verbatim>\<open>start\<close>, \<^verbatim>\<open>move\<close> and \<^verbatim>\<open>step\<close> are
  taken to return normally and no hook calls back into the machine; \<^verbatim>\<open>stopped\<close> may throw.
\<close>

record 'w AnimationListener =
  hook_start :: "('w \<Rightarrow> jsnum \<Rightarrow> bool \<Rightarrow> bool hook_result \<times> 'w) option"
  hook_move :: "'w \<Rightarrow> PlaybackStateInfo \<Rightarrow> bool hook_result \<times> 'w"
  hook_stopped :: "('w \<Rightarrow> PlaybackStateInfo \<Rightarrow> stopped_outcome \<times> 'w) option"
  hook_step :: "('w \<Rightarrow> jsnum \<Rightarrow> bool \<Rightarrow> StepResult hook_result \<times> 'w) option"

datatype hook_call =
    CallStart jsnum bool
  | CallMove PlaybackStateInfo
  | CallStopped PlaybackStateInfo
  | CallStep jsnum bool

subsection \<open>Promises, timers, errors\<close>

text \<open>
  The value a listener's promise is fulfilled with, or its rejection. \<open>truthy\<close> is the
  test \<^verbatim>\<open>if (doContinue)\<close>.
\<close>

datatype jsval = VBool bool | VNum jsnum | VUndefined

datatype resolution = Fulfilled jsval | Rejected

fun truthy :: "jsval \<Rightarrow> bool" where
  "truthy (VBool b) = b"
| "truthy (VNum x) = (x \<noteq> Fin 0 \<and> x \<noteq> NaN)"
| "truthy VUndefined = False"

text \<open>
  The reactions \<^verbatim>\<open>.then(...).catch(...)\<close> registered on an abortable promise, with the
  variables their closures capture: \<^verbatim>\<open>start\<close> captures \<^verbatim>\<open>backwards\<close> and
  \<^verbatim>\<open>previousState\<close>; \<^verbatim>\<open>move\<close> captures \<^verbatim>\<open>fraction\<close> and \<^verbatim>\<open>previousState\<close>;
  the timer callback captures its own closure \<^verbatim>\<open>run\<close>, \<^verbatim>\<open>fraction\<close> and
  \<^verbatim>\<open>suspensionStart\<close>.
\<close>

datatype reaction =
    StartReaction bool PlaybackStateInfo
  | MoveReaction jsnum PlaybackStateInfo
  | StepReaction
  | TickReaction nat jsnum real

text \<open>
  One closure \<^verbatim>\<open>run\<close> per call of \<^verbatim>\<open>#startTimer\<close>: the captured \<^verbatim>\<open>timeInfo\<close>
  object, \<^verbatim>\<open>initialFraction\<close>, \<^verbatim>\<open>options.oneOff\<close> and the mutable local
  \<^verbatim>\<open>start\<close>.
\<close>

record run_closure =
  cl_timeInfo :: nat
  cl_initialFraction :: jsnum
  cl_oneOff :: bool
  cl_start :: "real option"

datatype js_error =
    InvalidFraction jsnum
  | StoppedHookError
  | TypeError

datatype Button = PlayBtn | PlayBackwardBtn | PauseBtn | StopBtn

subsection \<open>The instance\<close>

text \<open>
  \<open>st\<close> is the private field \<^verbatim>\<open>#state\<close>. \<open>suspensionControl\<close> names the promise
  its \<^verbatim>\<open>AbortController\<close> aborts. \<open>promises\<close> are the abortable promises not settled
  yet, \<open>frames\<close> the animation frames requested and neither fired nor cancelled (handle and
  closure). \<open>nextId\<close> supplies fresh references and handles. \<open>durationAttr\<close> is the
  parsed attribute \<^verbatim>\<open>animation-duration\<close> (\<open>None\<close> when absent or not a number).
\<close>

record 'w PlaybackControls =
  st :: PlaybackStateInfo
  suspensionControl :: "nat option"
  animationCallback :: "'w AnimationListener option"
  disabled :: "Button \<Rightarrow> bool"
  durationAttr :: "real option"
  world :: 'w
  timeObjs :: "nat \<Rightarrow> TimeBasedState option"
  closures :: "nat \<Rightarrow> run_closure option"
  frames :: "(nat \<times> nat) list"
  promises :: "(nat \<times> reaction) list"
  nextId :: nat
  dispatched :: "(string \<times> PlaybackTransition) list"
  calls :: "hook_call list"

type_synonym 'w outcome = "js_error option \<times> 'w PlaybackControls"

text \<open>Sequencing: an exception skips the rest, the state reached so far stays.\<close>

definition and_then :: "'w outcome \<Rightarrow> ('w PlaybackControls \<Rightarrow> 'w outcome) \<Rightarrow> 'w outcome" where
  "and_then r f = (case r of (None, m) \<Rightarrow> f m | (Some e, m) \<Rightarrow> (Some e, m))"

definition remove_key :: "nat \<Rightarrow> (nat \<times> 'a) list \<Rightarrow> (nat \<times> 'a) list" where
  "remove_key k xs = filter (\<lambda>e. fst e \<noteq> k) xs"

text \<open>The constructor's initial field values; pause and stop start deactivated.\<close>

definition PlaybackControls_new :: "'w \<Rightarrow> real option \<Rightarrow> 'w PlaybackControls" where
  "PlaybackControls_new w d =
     \<lparr> st = \<lparr> state = STOPPED, fraction = Fin 0, isSuspended = False, time = None \<rparr>,
       suspensionControl = None,
       animationCallback = None,
       disabled = (\<lambda>b. b = PauseBtn \<or> b = StopBtn),
       durationAttr = d,
       world = w,
       timeObjs = (\<lambda>_. None),
       closures = (\<lambda>_. None),
       frames = [],
       promises = [],
       nextId = 0,
       dispatched = [],
       calls = [] \<rparr>"

section \<open>Operations\<close>

subsection \<open>Helpers of the class\<close>

text \<open>\<^verbatim>\<open>#updateActivation\<close>: activate the first list, then deactivate the second.\<close>

definition updateActivation :: "Button list \<Rightarrow> Button list \<Rightarrow> 'w PlaybackControls \<Rightarrow> 'w PlaybackControls" where
  "updateActivation nowActive nowInactive m =
     m\<lparr> disabled := fold (\<lambda>b d. d(b := True)) nowInactive
                       (fold (\<lambda>b d. d(b := False)) nowActive (disabled m)) \<rparr>"

text \<open>Assignment to a property of a \<^verbatim>\<open>TimeBasedState\<close> object in the store.\<close>

definition upd_time :: "nat \<Rightarrow> (TimeBasedState \<Rightarrow> TimeBasedState) \<Rightarrow> 'w PlaybackControls \<Rightarrow> 'w PlaybackControls" where
  "upd_time t f m =
     (case timeObjs m t of
        None \<Rightarrow> m
      | Some T \<Rightarrow> m\<lparr> timeObjs := (timeObjs m)(t \<mapsto> f T) \<rparr>)"

text \<open>
  \<^verbatim>\<open>the getter animationDuration\<close>: the attribute if it is positive, else the default
  of 10000 ms.
\<close>

definition animationDuration :: "'w PlaybackControls \<Rightarrow> real" where
  "animationDuration m =
     (case durationAttr m of
        Some d \<Rightarrow> if d > 0 then d else 10000
      | None \<Rightarrow> 10000)"

text \<open>\<^verbatim>\<open>#cancelTimer\<close>\<close>

definition cancelTimer :: "'w PlaybackControls \<Rightarrow> 'w PlaybackControls" where
  "cancelTimer m =
     (case time (st m) of
        None \<Rightarrow> m
      | Some t \<Rightarrow>
          (case timeObjs m t of
             None \<Rightarrow> m
           | Some T \<Rightarrow>
               (case timer T of
                  None \<Rightarrow> m
                | Some h \<Rightarrow>
                    upd_time t (\<lambda>T. T\<lparr> timer := None, millisElapsed := None \<rparr>)
                      (m\<lparr> frames := remove_key h (frames m) \<rparr>))))"

text \<open>
  \<^verbatim>\<open>#cancelSuspension\<close>. The abortable promise is a \<^verbatim>\<open>Promise.race\<close> of the
  listener's promise with the abort signal, so it takes the outcome of whichever comes
  first. \<open>promises\<close> holds the abortable promises for which neither has happened yet.
  Aborting one of these rejects it with a \<^verbatim>\<open>_PlaybackAbortError\<close>, on which every
  \<^verbatim>\<open>catch\<close> handler of the class does nothing: it leaves the pending ones and no
  reaction runs. Aborting after the listener's promise has settled changes nothing: that
  promise is no longer among the pending ones, and its handlers still run (see
  \<open>listener_settles\<close> and \<open>run_reaction\<close> below).
\<close>

definition abort_controller :: "nat option \<Rightarrow> 'w PlaybackControls \<Rightarrow> 'w PlaybackControls" where
  "abort_controller c m =
     (case c of
        None \<Rightarrow> m
      | Some p \<Rightarrow> m\<lparr> promises := remove_key p (promises m) \<rparr>)"

definition cancelSuspension :: "'w PlaybackControls \<Rightarrow> 'w PlaybackControls" where
  "cancelSuspension m =
     (if isSuspended (st m)
      then (let m1 = abort_controller (suspensionControl m) m
            in m1\<lparr> suspensionControl := None, st := (st m1)\<lparr> isSuspended := False \<rparr> \<rparr>)
      else m)"

text \<open>
  \<^verbatim>\<open>#abortablePromise\<close> with the reactions registered on it, and the assignment to
  \<^verbatim>\<open>#suspensionControl\<close> that follows it at every call site.
\<close>

definition abortablePromise :: "reaction \<Rightarrow> 'w PlaybackControls \<Rightarrow> 'w PlaybackControls" where
  "abortablePromise k m =
     m\<lparr> promises := promises m @ [(nextId m, k)],
        suspensionControl := Some (nextId m),
        nextId := Suc (nextId m) \<rparr>"

text \<open>\<^verbatim>\<open>timeInfo.timer = globalThis.requestAnimationFrame(run)\<close> for the closure \<open>c\<close>.\<close>

definition requestAnimationFrame :: "nat \<Rightarrow> nat \<Rightarrow> 'w PlaybackControls \<Rightarrow> 'w PlaybackControls" where
  "requestAnimationFrame t c m =
     upd_time t (\<lambda>T. T\<lparr> timer := Some (nextId m) \<rparr>)
       (m\<lparr> frames := frames m @ [(nextId m, c)], nextId := Suc (nextId m) \<rparr>)"

text \<open>\<^verbatim>\<open>#startTimer(options)\<close>; the callback \<^verbatim>\<open>run\<close> is \<open>run\<close> below.\<close>

definition startTimer :: "bool \<Rightarrow> 'w PlaybackControls \<Rightarrow> 'w PlaybackControls" where
  "startTimer oneOff m =
     (case time (st m) of
        None \<Rightarrow> m
      | Some t \<Rightarrow>
          (let m1 = cancelTimer m
           in if \<not> isPlaying (st m1) \<and> \<not> oneOff then m1
              else (let c = nextId m1;
                        m2 = m1\<lparr> closures := (closures m1)(c \<mapsto>
                                   \<lparr> cl_timeInfo = t, cl_initialFraction = fraction (st m1),
                                     cl_oneOff = oneOff, cl_start = None \<rparr>),
                                 nextId := Suc c \<rparr>;
                        m3 = upd_time t (\<lambda>T. T\<lparr> millisElapsed := Some 0 \<rparr>) m2
                    in requestAnimationFrame t c m3)))"

text \<open>A call of the optional hook \<^verbatim>\<open>stopped\<close> with \<^verbatim>\<open>{...state}\<close>.\<close>

definition call_stopped :: "'w PlaybackControls \<Rightarrow> stopped_outcome \<times> 'w PlaybackControls" where
  "call_stopped m =
     (case animationCallback m of
        None \<Rightarrow> (Returned, m)
      | Some L \<Rightarrow>
          (case hook_stopped L of
             None \<Rightarrow> (Returned, m)
           | Some h \<Rightarrow>
               (let (r, w) = h (world m) (st m)
                in (r, m\<lparr> world := w, calls := calls m @ [CallStopped (st m)] \<rparr>))))"

text \<open>The call outside \<^verbatim>\<open>try\<close>, as in \<^verbatim>\<open>stop\<close>, \<^verbatim>\<open>finish\<close> and \<^verbatim>\<open>pause\<close>.\<close>

definition call_stopped_unguarded :: "'w PlaybackControls \<Rightarrow> 'w outcome" where
  "call_stopped_unguarded m =
     (case call_stopped m of
        (Returned, m1) \<Rightarrow> (None, m1)
      | (Threw, m1) \<Rightarrow> (Some StoppedHookError, m1))"

text \<open>\<^verbatim>\<open>#dispatchEvent(type, oldState)\<close>: the typed event, then \<^verbatim>\<open>change\<close>.\<close>

definition dispatchEvent :: "string \<Rightarrow> PlaybackStateInfo \<Rightarrow> 'w PlaybackControls \<Rightarrow> 'w PlaybackControls" where
  "dispatchEvent type oldState m =
     (let transition = \<lparr> t_from = oldState, t_to = st m \<rparr>
      in m\<lparr> dispatched := dispatched m @ [(type, transition), (''change'', transition)] \<rparr>)"

subsection \<open>The commit step\<close>

text \<open>
  \<^verbatim>\<open>#moveInternal(fraction, {skipTimer})\<close>. The clamping chain is the source's:
  \<^verbatim>\<open>if (fraction < 0) ... else if (fraction > 1) ... else if (!isFinite(fraction)) throw\<close>.
\<close>

definition moveInternal_commit :: "jsnum \<Rightarrow> bool \<Rightarrow> 'w PlaybackControls \<Rightarrow> 'w PlaybackControls" where
  "moveInternal_commit f skipTimer m =
     (let m1 = m\<lparr> st := (st m)\<lparr> fraction := f \<rparr> \<rparr>;
          m2 = (if state (st m1) \<in> {PAUSED, STOPPED, FINISHED}
                   \<or> (js_eq f (Fin 0) \<and> state (st m1) = PLAYING_BACKWARDS)
                   \<or> (js_eq f (Fin 1) \<and> state (st m1) = PLAYING)
                then (let m' =
                        (if js_eq f (Fin 0)
                         then updateActivation [PlayBtn, PlayBackwardBtn] [PauseBtn, StopBtn]
                                (m1\<lparr> st := (st m1)\<lparr> state := STOPPED \<rparr> \<rparr>)
                         else updateActivation [PlayBtn, PlayBackwardBtn, StopBtn] [PauseBtn]
                                (m1\<lparr> st := (st m1)\<lparr> state :=
                                      (if js_eq f (Fin 1) then FINISHED else PAUSED) \<rparr> \<rparr>))
                      in snd (call_stopped m'))
                else (let isBackwards = (state (st m1) = PLAYING_BACKWARDS);
                          active = (if isBackwards then PlayBtn else PlayBackwardBtn);
                          inactive = (if isBackwards then PlayBackwardBtn else PlayBtn)
                      in updateActivation [active, StopBtn, PauseBtn] [inactive] m1))
      in if time (st m2) \<noteq> None \<and> \<not> skipTimer
         then startTimer (\<not> isPlaying (st m2)) m2
         else m2)"

definition moveInternal :: "jsnum \<Rightarrow> bool \<Rightarrow> 'w PlaybackControls \<Rightarrow> 'w outcome" where
  "moveInternal f skipTimer m =
     (let m1 = (if \<not> skipTimer then cancelTimer m else m)
      in if js_lt f (Fin 0) then (None, moveInternal_commit (Fin 0) skipTimer m1)
         else if js_gt f (Fin 1) then (None, moveInternal_commit (Fin 1) skipTimer m1)
         else if \<not> isFinite f then (Some (InvalidFraction f), m1)
         else (None, moveInternal_commit f skipTimer m1))"

subsection \<open>The forced operations\<close>

definition stop :: "'w PlaybackControls \<Rightarrow> 'w outcome" where
  "stop m =
     (let m1 = m\<lparr> st := (st m)\<lparr> state := STOPPED \<rparr> \<rparr>;
          m2 = cancelSuspension m1
      in and_then (moveInternal (Fin 0) False m2) call_stopped_unguarded)"

definition finish :: "'w PlaybackControls \<Rightarrow> 'w outcome" where
  "finish m =
     (let m1 = m\<lparr> st := (st m)\<lparr> state := FINISHED \<rparr> \<rparr>;
          m2 = cancelSuspension m1
      in and_then (moveInternal (Fin 1) False m2) call_stopped_unguarded)"

definition pause :: "'w PlaybackControls \<Rightarrow> 'w outcome" where
  "pause m =
     (let m1 = cancelSuspension m
      in if js_le (fraction (st m1)) (Fin 0) then stop m1
         else if js_ge (fraction (st m1)) (Fin 1) then finish m1
         else (let m2 = m1\<lparr> st := (st m1)\<lparr> state := PAUSED \<rparr> \<rparr>;
                   m3 = updateActivation [PlayBtn, PlayBackwardBtn, StopBtn] [PauseBtn] m2;
                   m4 = cancelTimer m3
               in call_stopped_unguarded m4))"

subsection \<open>The negotiated operations\<close>

text \<open>\<^verbatim>\<open>#started(backwards)\<close>\<close>

definition started :: "bool \<Rightarrow> 'w PlaybackControls \<Rightarrow> 'w PlaybackControls" where
  "started backwards m =
     updateActivation [if backwards then PlayBtn else PlayBackwardBtn, PauseBtn, StopBtn]
       [if backwards then PlayBackwardBtn else PlayBtn] m"

text \<open>The local functions \<^verbatim>\<open>finishStart\<close> and \<^verbatim>\<open>abort\<close> of \<^verbatim>\<open>start\<close>.\<close>

definition finishStart :: "bool \<Rightarrow> 'w PlaybackControls \<Rightarrow> 'w PlaybackControls" where
  "finishStart backwards m =
     (let m1 = m\<lparr> st := (st m)\<lparr> isSuspended := False \<rparr> \<rparr>;
          m2 = started backwards m1
      in if time (st m2) \<noteq> None then startTimer False m2 else m2)"

text \<open>
  \<^verbatim>\<open>Object.assign(state, previousState)\<close> copies the properties the snapshot has: a
  snapshot taken while \<^verbatim>\<open>time\<close> was deleted leaves the current \<^verbatim>\<open>time\<close> in place.
\<close>

definition start_abort :: "PlaybackStateInfo \<Rightarrow> 'w PlaybackControls \<Rightarrow> 'w PlaybackControls" where
  "start_abort previousState m =
     m\<lparr> st := previousState\<lparr> isSuspended := False,
                            time := (case time previousState of
                                       None \<Rightarrow> time (st m)
                                     | Some t \<Rightarrow> Some t) \<rparr> \<rparr>"

text \<open>
  \<^verbatim>\<open>start(backwards)\<close>, in the source's order: the two early returns, then the
  tentative transition (suspension cancelled, playing state set, fraction moved off the far
  end), then the negotiation with the optional \<^verbatim>\<open>start\<close> hook.
\<close>

definition start_tentative :: "bool \<Rightarrow> 'w PlaybackControls \<Rightarrow> 'w PlaybackControls" where
  "start_tentative backwards m =
     (let m1 = cancelSuspension m;
          m2 = m1\<lparr> st := (st m1)\<lparr> state :=
                 (if backwards then PLAYING_BACKWARDS else PLAYING) \<rparr> \<rparr>
      in if backwards \<and> js_eq (fraction (st m2)) (Fin 0)
         then m2\<lparr> st := (st m2)\<lparr> fraction := Fin 1 \<rparr> \<rparr>
         else if \<not> backwards \<and> js_eq (fraction (st m2)) (Fin 1)
         then m2\<lparr> st := (st m2)\<lparr> fraction := Fin 0 \<rparr> \<rparr>
         else m2)"

definition start_negotiate ::
  "bool \<Rightarrow> PlaybackStateInfo \<Rightarrow> 'w AnimationListener \<Rightarrow> 'w PlaybackControls \<Rightarrow> 'w PlaybackControls" where
  "start_negotiate backwards previousState L m =
     (case hook_start L of
        None \<Rightarrow> finishStart backwards m
      | Some h \<Rightarrow>
          (let (result, w) = h (world m) (fraction (st m)) backwards;
               m1 = m\<lparr> world := w, calls := calls m @ [CallStart (fraction (st m)) backwards] \<rparr>
           in case result of
                Nothing \<Rightarrow> start_abort previousState m1
              | Immediate False \<Rightarrow> start_abort previousState m1
              | Deferred \<Rightarrow>
                  abortablePromise (StartReaction backwards previousState)
                    (m1\<lparr> st := (st m1)\<lparr> isSuspended := True \<rparr> \<rparr>)
              | Immediate True \<Rightarrow> finishStart backwards m1))"

definition start :: "bool \<Rightarrow> 'w PlaybackControls \<Rightarrow> 'w PlaybackControls" where
  "start backwards m =
     (case animationCallback m of
        None \<Rightarrow> m
      | Some L \<Rightarrow>
          (let previousState = st m
           in if isPlaying (st m) \<and> (backwards = (state (st m) = PLAYING_BACKWARDS)) then m
              else start_negotiate backwards previousState L (start_tentative backwards m)))"

text \<open>The local functions \<^verbatim>\<open>abort\<close> and \<^verbatim>\<open>finalize\<close> of \<^verbatim>\<open>move\<close>.\<close>

definition move_abort :: "PlaybackStateInfo \<Rightarrow> 'w PlaybackControls \<Rightarrow> 'w outcome" where
  "move_abort previousState m =
     pause (m\<lparr> st := (st m)\<lparr> isSuspended := False, fraction := fraction previousState \<rparr> \<rparr>)"

definition move_finalize :: "jsnum \<Rightarrow> PlaybackStateInfo \<Rightarrow> 'w PlaybackControls \<Rightarrow> 'w outcome" where
  "move_finalize f previousState m =
     and_then (moveInternal f False (m\<lparr> st := (st m)\<lparr> isSuspended := False \<rparr> \<rparr>))
       (\<lambda>m1. (None, dispatchEvent (if isPlaying (st m1) then ''jumpplaying'' else ''jumppaused'')
                       previousState m1))"

text \<open>
  \<^verbatim>\<open>move(fraction)\<close>: the decision on the hook's result is \<open>move_decide\<close>.
\<close>

definition move_decide ::
  "jsnum \<Rightarrow> PlaybackStateInfo \<Rightarrow> bool hook_result \<Rightarrow> 'w PlaybackControls \<Rightarrow> 'w outcome" where
  "move_decide f previousState result m =
     (case result of
        Nothing \<Rightarrow> move_abort previousState m
      | Immediate False \<Rightarrow> move_abort previousState m
      | Deferred \<Rightarrow>
          (None, abortablePromise (MoveReaction f previousState)
                   (m\<lparr> st := (st m)\<lparr> isSuspended := True \<rparr> \<rparr>))
      | Immediate True \<Rightarrow> move_finalize f previousState m)"

definition move :: "jsnum \<Rightarrow> 'w PlaybackControls \<Rightarrow> 'w outcome" where
  "move f m =
     (let m1 = cancelSuspension m;
          previousState = st m1
      in case animationCallback m1 of
           None \<Rightarrow> move_abort previousState m1
         | Some L \<Rightarrow>
             (let (result, w) = hook_move L (world m1) (previousState\<lparr> fraction := f \<rparr>)
              in move_decide f previousState result
                   (m1\<lparr> world := w,
                       calls := calls m1 @ [CallMove (previousState\<lparr> fraction := f \<rparr>)] \<rparr>)))"

text \<open>
  \<^verbatim>\<open>#step(event)\<close>, the key-down listener of the progress element, for the keys
  ArrowLeft (\<open>isLeft\<close>) and ArrowRight; any other key returns at once.
\<close>

definition step_decide :: "StepResult hook_result \<Rightarrow> 'w PlaybackControls \<Rightarrow> 'w outcome" where
  "step_decide result m =
     (case result of
        Nothing \<Rightarrow> (None, m)
      | Immediate StepFalse \<Rightarrow> (None, m)
      | Deferred \<Rightarrow>
          (None, abortablePromise StepReaction (m\<lparr> st := (st m)\<lparr> isSuspended := True \<rparr> \<rparr>))
      | Immediate (StepNumber x) \<Rightarrow> moveInternal x False m)"

definition step :: "bool \<Rightarrow> 'w PlaybackControls \<Rightarrow> 'w outcome" where
  "step isLeft m =
     (case animationCallback m of
        None \<Rightarrow> (None, m)
      | Some L \<Rightarrow>
          (case hook_step L of
             None \<Rightarrow> (None, m)
           | Some h \<Rightarrow>
               (let m1 = cancelSuspension m;
                    (result, w) = h (world m1) (fraction (st m1)) isLeft
                in step_decide result
                     (m1\<lparr> world := w,
                         calls := calls m1 @ [CallStep (fraction (st m1)) isLeft] \<rparr>))))"

subsection \<open>The clock\<close>

text \<open>
  The callback \<^verbatim>\<open>run(timestamp)\<close> of the closure \<open>c\<close>. \<open>now\<close> is what
  \<^verbatim>\<open>performance.now()\<close> returns during the call. Timestamps and durations are finite;
  \<^verbatim>\<open>durationMillis\<close> is positive wherever the code stores it.
\<close>

definition run_decide ::
  "nat \<Rightarrow> run_closure \<Rightarrow> jsnum \<Rightarrow> real \<Rightarrow> bool hook_result \<Rightarrow> 'w PlaybackControls \<Rightarrow> 'w outcome" where
  "run_decide c cl f now result m =
     (if cl_oneOff cl
      then (None, upd_time (cl_timeInfo cl) (\<lambda>T. T\<lparr> timer := None \<rparr>) m)
      else
        (case result of
           Nothing \<Rightarrow> pause m
         | Immediate False \<Rightarrow> pause m
         | Deferred \<Rightarrow>
             (None, abortablePromise (TickReaction c f now)
                      (m\<lparr> st := (st m)\<lparr> isSuspended := True \<rparr> \<rparr>))
         | Immediate True \<Rightarrow>
             and_then (moveInternal f True m)
               (\<lambda>m1. (None, requestAnimationFrame (cl_timeInfo cl) c m1))))"

text \<open>The candidate fraction of a frame, from the time passed.\<close>

definition run_fraction :: "bool \<Rightarrow> jsnum \<Rightarrow> real \<Rightarrow> real \<Rightarrow> jsnum" where
  "run_fraction backwards initialFraction passed duration =
     (if backwards
      then js_max (Fin 0) (js_sub initialFraction (Fin (passed / duration)))
      else js_min (Fin 1) (js_add (Fin (passed / duration)) initialFraction))"

definition run_move :: "nat \<Rightarrow> run_closure \<Rightarrow> jsnum \<Rightarrow> real \<Rightarrow> 'w PlaybackControls \<Rightarrow> 'w outcome" where
  "run_move c cl f now m =
     (case animationCallback m of
        None \<Rightarrow> (Some TypeError, m)
      | Some L \<Rightarrow>
          (let (result, w) = hook_move L (world m) ((st m)\<lparr> fraction := f \<rparr>)
           in run_decide c cl f now result
                (m\<lparr> world := w, calls := calls m @ [CallMove ((st m)\<lparr> fraction := f \<rparr>)] \<rparr>)))"

definition run :: "nat \<Rightarrow> real \<Rightarrow> real \<Rightarrow> 'w PlaybackControls \<Rightarrow> 'w outcome" where
  "run c timestamp now m =
     (case closures m c of
        None \<Rightarrow> (None, m)
      | Some cl \<Rightarrow>
          (case timeObjs m (cl_timeInfo cl) of
             None \<Rightarrow> (None, m)
           | Some timeInfo \<Rightarrow>
               (let start = (case cl_start cl of None \<Rightarrow> timestamp | Some s \<Rightarrow> s);
                    m1 = m\<lparr> closures := (closures m)(c \<mapsto> cl\<lparr> cl_start := Some start \<rparr>) \<rparr>;
                    passed = timestamp - start;
                    m2 = upd_time (cl_timeInfo cl) (\<lambda>T. T\<lparr> millisElapsed := Some passed \<rparr>) m1;
                    backwards = (state (st m2) = PLAYING_BACKWARDS);
                    f = run_fraction backwards (cl_initialFraction cl) passed (durationMillis timeInfo)
                in if js_eq f (Fin 1) \<and> \<not> backwards then finish m2
                   else if js_eq f (Fin 0) \<and> backwards then stop m2
                   else run_move c cl f now m2)))"

text \<open>The browser fires the scheduled frame \<open>h\<close>; a cancelled or unknown handle fires nothing.\<close>

definition fire_frame :: "nat \<Rightarrow> real \<Rightarrow> real \<Rightarrow> 'w PlaybackControls \<Rightarrow> 'w outcome" where
  "fire_frame h timestamp now m =
     (case map_of (frames m) h of
        None \<Rightarrow> (None, m)
      | Some c \<Rightarrow> run c timestamp now (m\<lparr> frames := remove_key h (frames m) \<rparr>))"

subsection \<open>Settling a deferred result\<close>

text \<open>
  The reactions of the four call sites. A \<^verbatim>\<open>catch\<close> handler also runs when the
  \<^verbatim>\<open>then\<close> handler before it throws; what a \<^verbatim>\<open>catch\<close> handler itself throws is
  an unhandled rejection, reported as the outcome's error.
\<close>

definition react_start :: "bool \<Rightarrow> PlaybackStateInfo \<Rightarrow> resolution \<Rightarrow> 'w PlaybackControls \<Rightarrow> 'w PlaybackControls" where
  "react_start backwards previousState r m =
     (case r of
        Fulfilled doStart \<Rightarrow>
          if truthy doStart then finishStart backwards m else start_abort previousState m
      | Rejected \<Rightarrow> start_abort previousState m)"

definition react_move :: "jsnum \<Rightarrow> PlaybackStateInfo \<Rightarrow> resolution \<Rightarrow> 'w PlaybackControls \<Rightarrow> 'w outcome" where
  "react_move f previousState r m =
     (case r of
        Fulfilled doContinue \<Rightarrow>
          (case (if truthy doContinue then move_finalize f previousState m
                 else move_abort previousState m) of
             (None, m1) \<Rightarrow> (None, m1)
           | (Some e, m1) \<Rightarrow> move_abort previousState m1)
      | Rejected \<Rightarrow> move_abort previousState m)"

definition react_step :: "resolution \<Rightarrow> 'w PlaybackControls \<Rightarrow> 'w outcome" where
  "react_step r m =
     (let m1 = m\<lparr> st := (st m)\<lparr> isSuspended := False \<rparr> \<rparr>
      in case r of
           Fulfilled (VNum newFraction) \<Rightarrow>
             if js_ge newFraction (Fin 0) \<and> js_le newFraction (Fin 1)
             then (case moveInternal newFraction False m1 of
                     (None, m2) \<Rightarrow> (None, m2)
                   | (Some e, m2) \<Rightarrow> (None, m2\<lparr> st := (st m2)\<lparr> isSuspended := False \<rparr> \<rparr>))
             else (None, m1)
         | Fulfilled v \<Rightarrow> (None, m1)
         | Rejected \<Rightarrow> (None, m1))"

definition tick_catch :: "'w PlaybackControls \<Rightarrow> 'w outcome" where
  "tick_catch m = pause (m\<lparr> st := (st m)\<lparr> isSuspended := False \<rparr> \<rparr>)"

definition react_tick :: "nat \<Rightarrow> jsnum \<Rightarrow> real \<Rightarrow> resolution \<Rightarrow> real \<Rightarrow> 'w PlaybackControls \<Rightarrow> 'w outcome" where
  "react_tick c f suspensionStart r now m =
     (case r of
        Fulfilled doContinue \<Rightarrow>
          (let m1 = m\<lparr> st := (st m)\<lparr> isSuspended := False \<rparr> \<rparr>
           in case (if truthy doContinue
                    then (case closures m1 c of
                            None \<Rightarrow> (None, m1)
                          | Some cl \<Rightarrow>
                              (let elapsed = now - suspensionStart;
                                   m2 = m1\<lparr> closures := (closures m1)(c \<mapsto>
                                          cl\<lparr> cl_start := map_option (\<lambda>s. s + elapsed) (cl_start cl) \<rparr>) \<rparr>
                               in and_then (moveInternal f True m2)
                                    (\<lambda>m3. (None, requestAnimationFrame (cl_timeInfo cl) c m3))))
                    else pause m1) of
                (None, m4) \<Rightarrow> (None, m4)
              | (Some e, m4) \<Rightarrow> tick_catch m4)
      | Rejected \<Rightarrow> tick_catch m)"

text \<open>
  The listener's promise settles while nothing else happens in that task: the race takes
  its outcome and the handlers run in the microtasks that follow, before any other
  operation on the instance. This is the compound step \<open>settle\<close>; a promise already
  aborted (or settled) runs no reaction. The two halves as steps of their own, with
  operations between them, are \<open>listener_settles\<close> and \<open>run_reaction\<close> below.
\<close>

definition settle :: "nat \<Rightarrow> resolution \<Rightarrow> real \<Rightarrow> 'w PlaybackControls \<Rightarrow> 'w outcome" where
  "settle p r now m =
     (case map_of (promises m) p of
        None \<Rightarrow> (None, m)
      | Some k \<Rightarrow>
          (let m1 = m\<lparr> promises := remove_key p (promises m) \<rparr>
           in case k of
                StartReaction backwards previousState \<Rightarrow>
                  (None, react_start backwards previousState r m1)
              | MoveReaction f previousState \<Rightarrow> react_move f previousState r m1
              | StepReaction \<Rightarrow> react_step r m1
              | TickReaction c f suspensionStart \<Rightarrow> react_tick c f suspensionStart r now m1))"

subsection \<open>Listener, duration, clicks\<close>

definition setAnimationListener :: "'w AnimationListener option \<Rightarrow> 'w PlaybackControls \<Rightarrow> 'w PlaybackControls" where
  "setAnimationListener listener m =
     (let m1 = (if time (st m) \<noteq> None
                then (let m' = cancelTimer m in m'\<lparr> st := (st m')\<lparr> time := None \<rparr> \<rparr>)
                else m);
          m2 = m1\<lparr> animationCallback := listener \<rparr>
      in case listener of
           None \<Rightarrow> m2
         | Some L \<Rightarrow>
             (let t = nextId m2;
                  m3 = m2\<lparr> timeObjs := (timeObjs m2)(t \<mapsto>
                            \<lparr> millisElapsed = None, timer = None,
                              durationMillis = animationDuration m2 \<rparr>),
                          st := (st m2)\<lparr> time := Some t \<rparr>,
                          nextId := Suc t \<rparr>
              in if isPlaying (st m3) then startTimer False m3 else m3))"

text \<open>\<^verbatim>\<open>#setAnimationDuration\<close>, and the attribute change that calls it.\<close>

definition setAnimationDuration :: "real \<Rightarrow> 'w PlaybackControls \<Rightarrow> 'w outcome" where
  "setAnimationDuration d m =
     (if \<not> d > 0 then (None, m)
      else if \<not> (isPlaying (st m) \<and> time (st m) \<noteq> None) then (None, m)
      else (let wasBackward = (state (st m) = PLAYING_BACKWARDS)
            in and_then (pause m)
                 (\<lambda>m1. (None, start wasBackward
                           (case time (st m1) of
                              None \<Rightarrow> m1
                            | Some t \<Rightarrow> upd_time t (\<lambda>T. T\<lparr> durationMillis := d \<rparr>) m1)))))"

definition attributeChangedCallback :: "real option \<Rightarrow> 'w PlaybackControls \<Rightarrow> 'w outcome" where
  "attributeChangedCallback newValue m =
     (let m1 = m\<lparr> durationAttr := newValue \<rparr>
      in case newValue of
           None \<Rightarrow> (None, m1)
         | Some millis \<Rightarrow> if millis > 0 then setAnimationDuration millis m1 else (None, m1))"

text \<open>\<^verbatim>\<open>#clicked(event)\<close> for a click on one of the four control buttons.\<close>

definition clicked :: "Button \<Rightarrow> 'w PlaybackControls \<Rightarrow> 'w outcome" where
  "clicked target m =
     (if disabled m target then (None, m)
      else (let previousState = st m
            in case target of
                 PlayBtn \<Rightarrow> (None, dispatchEvent ''start'' previousState (start False m))
               | PlayBackwardBtn \<Rightarrow>
                   (None, dispatchEvent ''startreverse'' previousState (start True m))
               | PauseBtn \<Rightarrow>
                   and_then (pause m) (\<lambda>m1. (None, dispatchEvent ''pause'' previousState m1))
               | StopBtn \<Rightarrow>
                   and_then (stop m) (\<lambda>m1. (None, dispatchEvent ''stop'' previousState m1))))"

section \<open>Runs of the machine\<close>

text \<open>
  What can happen to an instance: a call of a public method, a key or a click on the
  widget, a scheduled animation frame firing, a listener's promise settling.
\<close>

datatype 'w action =
    Start bool
  | Stop
  | Finish
  | Pause
  | Move jsnum
  | Step bool
  | SetAnimationListener "'w AnimationListener option"
  | SetDurationAttr "real option"
  | Click Button
  | Frame nat real real
  | Settle nat resolution real

fun perform :: "'w action \<Rightarrow> 'w PlaybackControls \<Rightarrow> 'w outcome" where
  "perform (Start backwards) m = (None, start backwards m)"
| "perform Stop m = stop m"
| "perform Finish m = finish m"
| "perform Pause m = pause m"
| "perform (Move f) m = move f m"
| "perform (Step isLeft) m = step isLeft m"
| "perform (SetAnimationListener l) m = (None, setAnimationListener l m)"
| "perform (SetDurationAttr d) m = attributeChangedCallback d m"
| "perform (Click b) m = clicked b m"
| "perform (Frame h timestamp now) m = fire_frame h timestamp now m"
| "perform (Settle p r now) m = settle p r now m"

text \<open>
  A run: the actions in order. An action that ends in an exception leaves the state it
  reached, and the run goes on from there.
\<close>

fun perform_all :: "'w action list \<Rightarrow> 'w PlaybackControls \<Rightarrow> 'w PlaybackControls" where
  "perform_all [] m = m"
| "perform_all (a # as) m = perform_all as (snd (perform a m))"

section \<open>Settlement and reaction as separate steps\<close>

text \<open>
  In the browser the handlers of a settled promise run as microtasks, after the task that
  settled it has ended. A listener may settle its promise and go on to call the instance in
  the same task (or return a promise that is settled already); the handlers then run after
  those calls. The queue of handlers waiting to run belongs to the environment, so it is
  kept beside the instance.
\<close>

text \<open>The \<^verbatim>\<open>then\<close> and \<^verbatim>\<open>catch\<close> handlers of a reaction, as in \<open>settle\<close>.\<close>

definition react :: "reaction \<Rightarrow> resolution \<Rightarrow> real \<Rightarrow> 'w PlaybackControls \<Rightarrow> 'w outcome" where
  "react k r now m =
     (case k of
        StartReaction backwards previousState \<Rightarrow>
          (None, react_start backwards previousState r m)
      | MoveReaction f previousState \<Rightarrow> react_move f previousState r m
      | StepReaction \<Rightarrow> react_step r m
      | TickReaction c f suspensionStart \<Rightarrow> react_tick c f suspensionStart r now m)"

record 'w scheduled =
  controls :: "'w PlaybackControls"
  jobs :: "(nat \<times> reaction \<times> resolution) list"

text \<open>
  The listener settles its promise \<open>p\<close>. If the abortable promise is still pending it
  takes this outcome and its handlers are queued; the state of the instance is untouched.
  Otherwise (aborted before, settled before, unknown) nothing happens.
\<close>

definition listener_settles :: "nat \<Rightarrow> resolution \<Rightarrow> 'w scheduled \<Rightarrow> 'w scheduled" where
  "listener_settles p r s =
     (case map_of (promises (controls s)) p of
        None \<Rightarrow> s
      | Some k \<Rightarrow>
          \<lparr> controls = (controls s)\<lparr> promises := remove_key p (promises (controls s)) \<rparr>,
            jobs = jobs s @ [(p, k, r)] \<rparr>)"

text \<open>
  The queued handlers of promise \<open>p\<close> run, at whatever state the instance has by then.
  The handlers of one promise run together.
\<close>

definition run_reaction :: "nat \<Rightarrow> real \<Rightarrow> 'w scheduled \<Rightarrow> js_error option \<times> 'w scheduled" where
  "run_reaction p now s =
     (case map_of (jobs s) p of
        None \<Rightarrow> (None, s)
      | Some (k, r) \<Rightarrow>
          (let (e, m) = react k r now (controls s)
           in (e, \<lparr> controls = m, jobs = remove_key p (jobs s) \<rparr>)))"

text \<open>
  A step of a run: an operation on the instance (any action above, the compound settlement
  among them), the listener settling a promise, or the queued handlers of a promise running.
  A run starts from a new instance with no handler queued.
\<close>

datatype 'w step =
    Operation "'w action"
  | ListenerSettles nat resolution
  | ReactionRuns nat real

fun perform_step :: "'w step \<Rightarrow> 'w scheduled \<Rightarrow> js_error option \<times> 'w scheduled" where
  "perform_step (Operation a) s =
     (let (e, m) = perform a (controls s) in (e, s\<lparr> controls := m \<rparr>))"
| "perform_step (ListenerSettles p r) s = (None, listener_settles p r s)"
| "perform_step (ReactionRuns p now) s = run_reaction p now s"

fun perform_steps :: "'w step list \<Rightarrow> 'w scheduled \<Rightarrow> 'w scheduled" where
  "perform_steps [] s = s"
| "perform_steps (x # xs) s = perform_steps xs (snd (perform_step x s))"


section \<open>Predicates and concrete listeners used in the statements\<close>

text \<open>The consistency of the discrete state with the fraction, for a snapshot.\<close>

definition consistent :: "PlaybackStateInfo \<Rightarrow> bool" where
  "consistent s =
     ((state s = STOPPED \<longrightarrow> fraction s = Fin 0) \<and> (state s = FINISHED \<longrightarrow> fraction s = Fin 1))"

text \<open>The snapshot a pending \<^verbatim>\<open>start\<close> would restore on abort is consistent.\<close>

fun reaction_consistent :: "reaction \<Rightarrow> bool" where
  "reaction_consistent (StartReaction backwards previousState) = consistent previousState"
| "reaction_consistent (MoveReaction f previousState) = True"
| "reaction_consistent StepReaction = True"
| "reaction_consistent (TickReaction c f suspensionStart) = True"

definition promises_consistent :: "'w PlaybackControls \<Rightarrow> bool" where
  "promises_consistent m = list_all (\<lambda>e. reaction_consistent (snd e)) (promises m)"

text \<open>
  The invariant of the runs: the state is consistent, and so is every snapshot that a
  pending reaction may put back.
\<close>

definition invariant :: "'w PlaybackControls \<Rightarrow> bool" where
  "invariant m = (consistent (st m) \<and> promises_consistent m)"

text \<open>
  At most one suspension is outstanding; it is the one the suspension control aborts, the
  suspension flag is set, and its promise is older than every promise still to be made.
\<close>

definition single_suspension :: "'w PlaybackControls \<Rightarrow> bool" where
  "single_suspension m =
     (case promises m of
        [] \<Rightarrow> True
      | [e] \<Rightarrow> isSuspended (st m) \<and> suspensionControl m = Some (fst e) \<and> fst e < nextId m
      | e # e' # es \<Rightarrow> False)"





text \<open>Listeners for the concrete runs below; the world outside is of no interest there.\<close>

definition approving :: "unit AnimationListener" where
  "approving =
     \<lparr> hook_start = None,
       hook_move = (\<lambda>w s. (Immediate True, w)),
       hook_stopped = Some (\<lambda>w s. (Returned, w)),
       hook_step = None \<rparr>"

definition throwing :: "unit AnimationListener" where
  "throwing =
     \<lparr> hook_start = None,
       hook_move = (\<lambda>w s. (Immediate True, w)),
       hook_stopped = Some (\<lambda>w s. (Threw, w)),
       hook_step = None \<rparr>"

definition deferring :: "unit AnimationListener" where
  "deferring =
     \<lparr> hook_start = Some (\<lambda>w f b. (Immediate False, w)),
       hook_move = (\<lambda>w s. (Deferred, w)),
       hook_stopped = None,
       hook_step = Some (\<lambda>w f b. (Deferred, w)) \<rparr>"



definition stepping :: "unit AnimationListener" where
  "stepping =
     \<lparr> hook_start = None,
       hook_move = (\<lambda>w s. (Immediate True, w)),
       hook_stopped = None,
       hook_step = Some (\<lambda>w f isLeft. (Immediate (StepNumber (Fin 1)), w)) \<rparr>"

definition fresh :: "unit PlaybackControls" where
  "fresh = PlaybackControls_new () None"

section \<open>What the helpers leave alone\<close>

lemma updateActivation_keeps [simp]:
  "st (updateActivation a b m) = st m"
  "promises (updateActivation a b m) = promises m"
  "suspensionControl (updateActivation a b m) = suspensionControl m"
  "animationCallback (updateActivation a b m) = animationCallback m"
  "world (updateActivation a b m) = world m"
  "calls (updateActivation a b m) = calls m"
  "dispatched (updateActivation a b m) = dispatched m"
  "nextId (updateActivation a b m) = nextId m"
  "frames (updateActivation a b m) = frames m"
  "timeObjs (updateActivation a b m) = timeObjs m"
  "closures (updateActivation a b m) = closures m"
  by (simp_all add: updateActivation_def)

lemma upd_time_keeps [simp]:
  "st (upd_time t f m) = st m"
  "promises (upd_time t f m) = promises m"
  "suspensionControl (upd_time t f m) = suspensionControl m"
  "animationCallback (upd_time t f m) = animationCallback m"
  "world (upd_time t f m) = world m"
  "calls (upd_time t f m) = calls m"
  "dispatched (upd_time t f m) = dispatched m"
  "nextId (upd_time t f m) = nextId m"
  "frames (upd_time t f m) = frames m"
  "closures (upd_time t f m) = closures m"
  "disabled (upd_time t f m) = disabled m"
  by (simp_all add: upd_time_def split: option.split)

lemma cancelTimer_keeps [simp]:
  "st (cancelTimer m) = st m"
  "promises (cancelTimer m) = promises m"
  "suspensionControl (cancelTimer m) = suspensionControl m"
  "animationCallback (cancelTimer m) = animationCallback m"
  "world (cancelTimer m) = world m"
  "calls (cancelTimer m) = calls m"
  "dispatched (cancelTimer m) = dispatched m"
  "nextId (cancelTimer m) = nextId m"
  "closures (cancelTimer m) = closures m"
  "disabled (cancelTimer m) = disabled m"
  by (simp_all add: cancelTimer_def split: option.split)

lemma requestAnimationFrame_keeps [simp]:
  "st (requestAnimationFrame t c m) = st m"
  "promises (requestAnimationFrame t c m) = promises m"
  "suspensionControl (requestAnimationFrame t c m) = suspensionControl m"
  "animationCallback (requestAnimationFrame t c m) = animationCallback m"
  "world (requestAnimationFrame t c m) = world m"
  "calls (requestAnimationFrame t c m) = calls m"
  "dispatched (requestAnimationFrame t c m) = dispatched m"
  "nextId (requestAnimationFrame t c m) = Suc (nextId m)"
  "closures (requestAnimationFrame t c m) = closures m"
  "disabled (requestAnimationFrame t c m) = disabled m"
  by (simp_all add: requestAnimationFrame_def)

lemma startTimer_keeps [simp]:
  "st (startTimer oneOff m) = st m"
  "promises (startTimer oneOff m) = promises m"
  "suspensionControl (startTimer oneOff m) = suspensionControl m"
  "animationCallback (startTimer oneOff m) = animationCallback m"
  "world (startTimer oneOff m) = world m"
  "calls (startTimer oneOff m) = calls m"
  "dispatched (startTimer oneOff m) = dispatched m"
  "disabled (startTimer oneOff m) = disabled m"
  by (simp_all add: startTimer_def Let_def split: option.split)


lemma dispatchEvent_keeps [simp]:
  "st (dispatchEvent ty s m) = st m"
  "promises (dispatchEvent ty s m) = promises m"
  "suspensionControl (dispatchEvent ty s m) = suspensionControl m"
  "animationCallback (dispatchEvent ty s m) = animationCallback m"
  "world (dispatchEvent ty s m) = world m"
  "calls (dispatchEvent ty s m) = calls m"
  "nextId (dispatchEvent ty s m) = nextId m"
  "frames (dispatchEvent ty s m) = frames m"
  by (simp_all add: dispatchEvent_def Let_def)

lemma call_stopped_keeps [simp]:
  "st (snd (call_stopped m)) = st m"
  "promises (snd (call_stopped m)) = promises m"
  "suspensionControl (snd (call_stopped m)) = suspensionControl m"
  "animationCallback (snd (call_stopped m)) = animationCallback m"
  "dispatched (snd (call_stopped m)) = dispatched m"
  "nextId (snd (call_stopped m)) = nextId m"
  "frames (snd (call_stopped m)) = frames m"
  "timeObjs (snd (call_stopped m)) = timeObjs m"
  "closures (snd (call_stopped m)) = closures m"
  "disabled (snd (call_stopped m)) = disabled m"
  by (simp_all add: call_stopped_def split: option.split prod.split)

lemma call_stopped_unguarded_keeps [simp]:
  "st (snd (call_stopped_unguarded m)) = st m"
  "promises (snd (call_stopped_unguarded m)) = promises m"
  "suspensionControl (snd (call_stopped_unguarded m)) = suspensionControl m"
  "animationCallback (snd (call_stopped_unguarded m)) = animationCallback m"
  "dispatched (snd (call_stopped_unguarded m)) = dispatched m"
  "nextId (snd (call_stopped_unguarded m)) = nextId m"
  "frames (snd (call_stopped_unguarded m)) = frames m"
proof -
  have "snd (call_stopped_unguarded m) = snd (call_stopped m)"
    by (simp add: call_stopped_unguarded_def split: prod.split stopped_outcome.split)
  then show
    "st (snd (call_stopped_unguarded m)) = st m"
    "promises (snd (call_stopped_unguarded m)) = promises m"
    "suspensionControl (snd (call_stopped_unguarded m)) = suspensionControl m"
    "animationCallback (snd (call_stopped_unguarded m)) = animationCallback m"
    "dispatched (snd (call_stopped_unguarded m)) = dispatched m"
    "nextId (snd (call_stopped_unguarded m)) = nextId m"
    "frames (snd (call_stopped_unguarded m)) = frames m"
    by simp_all
qed

lemma abortablePromise_keeps [simp]:
  "st (abortablePromise k m) = st m"
  "promises (abortablePromise k m) = promises m @ [(nextId m, k)]"
  "suspensionControl (abortablePromise k m) = Some (nextId m)"
  "animationCallback (abortablePromise k m) = animationCallback m"
  "world (abortablePromise k m) = world m"
  "calls (abortablePromise k m) = calls m"
  "dispatched (abortablePromise k m) = dispatched m"
  "nextId (abortablePromise k m) = Suc (nextId m)"
  "frames (abortablePromise k m) = frames m"
  by (simp_all add: abortablePromise_def)

lemma cancelSuspension_keeps [simp]:
  "state (st (cancelSuspension m)) = state (st m)"
  "fraction (st (cancelSuspension m)) = fraction (st m)"
  "time (st (cancelSuspension m)) = time (st m)"
  "isSuspended (st (cancelSuspension m)) = False"
  "animationCallback (cancelSuspension m) = animationCallback m"
  "world (cancelSuspension m) = world m"
  "calls (cancelSuspension m) = calls m"
  "dispatched (cancelSuspension m) = dispatched m"
  "nextId (cancelSuspension m) = nextId m"
  "frames (cancelSuspension m) = frames m"
  "timeObjs (cancelSuspension m) = timeObjs m"
  "closures (cancelSuspension m) = closures m"
  "disabled (cancelSuspension m) = disabled m"
  by (simp_all add: cancelSuspension_def abort_controller_def Let_def split: option.split)

lemma cancelSuspension_st: "st (cancelSuspension m) = (st m)\<lparr> isSuspended := False \<rparr>"
  by (simp add: cancelSuspension_def abort_controller_def Let_def split: option.split)


section \<open>The commit step\<close>

lemma js_eq_Fin [simp]: "js_eq a (Fin r) = (a = Fin r)"
  by (auto simp: js_eq_def)

lemma moveInternal_commit_keeps [simp]:
  "fraction (st (moveInternal_commit f skipTimer m)) = f"
  "isSuspended (st (moveInternal_commit f skipTimer m)) = isSuspended (st m)"
  "time (st (moveInternal_commit f skipTimer m)) = time (st m)"
  "promises (moveInternal_commit f skipTimer m) = promises m"
  "suspensionControl (moveInternal_commit f skipTimer m) = suspensionControl m"
  "animationCallback (moveInternal_commit f skipTimer m) = animationCallback m"
  "dispatched (moveInternal_commit f skipTimer m) = dispatched m"
  by (simp_all add: moveInternal_commit_def Let_def)

lemma moveInternal_commit_state:
  "state (st (moveInternal_commit f skipTimer m)) =
     (if state (st m) \<in> {PAUSED, STOPPED, FINISHED}
         \<or> (f = Fin 0 \<and> state (st m) = PLAYING_BACKWARDS)
         \<or> (f = Fin 1 \<and> state (st m) = PLAYING)
      then (if f = Fin 0 then STOPPED else if f = Fin 1 then FINISHED else PAUSED)
      else state (st m))"
  by (simp add: moveInternal_commit_def Let_def)

lemma moveInternal_commit_consistent: "consistent (st (moveInternal_commit f skipTimer m))"
  by (auto simp: consistent_def moveInternal_commit_state)

lemma moveInternal_keeps [simp]:
  "isSuspended (st (snd (moveInternal f skipTimer m))) = isSuspended (st m)"
  "time (st (snd (moveInternal f skipTimer m))) = time (st m)"
  "promises (snd (moveInternal f skipTimer m)) = promises m"
  "suspensionControl (snd (moveInternal f skipTimer m)) = suspensionControl m"
  "animationCallback (snd (moveInternal f skipTimer m)) = animationCallback m"
  "dispatched (snd (moveInternal f skipTimer m)) = dispatched m"
  by (simp_all add: moveInternal_def Let_def)

lemma moveInternal_raises:
  "fst (moveInternal f skipTimer m) =
     (if \<not> js_lt f (Fin 0) \<and> \<not> js_gt f (Fin 1) \<and> \<not> isFinite f
      then Some (InvalidFraction f) else None)"
  by (simp add: moveInternal_def Let_def)

lemma moveInternal_raised_st:
  "fst (moveInternal f skipTimer m) \<noteq> None \<Longrightarrow> st (snd (moveInternal f skipTimer m)) = st m"
  by (simp add: moveInternal_def Let_def split: if_splits)

lemma moveInternal_consistent:
  "fst (moveInternal f skipTimer m) = None \<Longrightarrow> consistent (st (snd (moveInternal f skipTimer m)))"
  by (simp add: moveInternal_def Let_def moveInternal_commit_consistent split: if_splits)

lemma moveInternal_consistent':
  "consistent (st m) \<Longrightarrow> consistent (st (snd (moveInternal f skipTimer m)))"
  by (cases "fst (moveInternal f skipTimer m)")
     (simp_all add: moveInternal_consistent moveInternal_raised_st)

lemma moveInternal_Fin:
  "moveInternal (Fin r) skipTimer m =
     (None, moveInternal_commit (Fin (if r < 0 then 0 else if r > 1 then 1 else r)) skipTimer
              (if skipTimer then m else cancelTimer m))"
  by (simp add: moveInternal_def Let_def js_gt_def)

text \<open>
  C3 (the code differs): a non-finite fraction passed to \<^verbatim>\<open>#moveInternal\<close> should
  raise. NaN does. The two infinities do not reach the \<^verbatim>\<open>isFinite\<close> test: the
  branches \<^verbatim>\<open>fraction < 0\<close> and \<^verbatim>\<open>fraction > 1\<close> come first and clamp them
  to 0 and 1 without an error.
\<close>

theorem moveInternal_clamps_infinities:
  "moveInternal PosInf skipTimer m =
     (None, moveInternal_commit (Fin 1) skipTimer (if skipTimer then m else cancelTimer m))
   \<and> moveInternal NegInf skipTimer m =
     (None, moveInternal_commit (Fin 0) skipTimer (if skipTimer then m else cancelTimer m))
   \<and> fraction (st (snd (moveInternal PosInf skipTimer m))) = Fin 1
   \<and> fraction (st (snd (moveInternal NegInf skipTimer m))) = Fin 0
   \<and> fst (moveInternal NaN skipTimer m) = Some (InvalidFraction NaN)"
  by (simp add: moveInternal_def Let_def js_gt_def)



section \<open>Exceptions of the stopped hook, and the clock at the end\<close>


text \<open>
  C6 (the code differs): an exception of the \<^verbatim>\<open>stopped\<close> hook should never reach the
  caller of a public operation. \<^verbatim>\<open>#moveInternal\<close> calls the hook inside
  \<^verbatim>\<open>try\<close>; \<^verbatim>\<open>stop\<close>, \<^verbatim>\<open>finish\<close> and \<^verbatim>\<open>pause\<close> call it once more
  outside any \<^verbatim>\<open>try\<close>, and that exception propagates.
\<close>

theorem stopped_hook_exception_propagates:
  "fst (stop (setAnimationListener (Some throwing) fresh)) = Some StoppedHookError
   \<and> fst (finish (setAnimationListener (Some throwing) fresh)) = Some StoppedHookError
   \<and> fst (moveInternal (Fin (1/2)) False (setAnimationListener (Some throwing) fresh)) = None
   \<and> state (st (snd (moveInternal (Fin (1/2)) False (setAnimationListener (Some throwing) fresh)))) = PAUSED
   \<and> fst (pause (snd (moveInternal (Fin (1/2)) False (setAnimationListener (Some throwing) fresh))))
       = Some StoppedHookError"
  by code_simp

text \<open>
  C5 (the code differs): forward playback driven by the clock that reaches fraction 1
  should call \<^verbatim>\<open>finish\<close> once and schedule no further callback. In the run below
  (duration 10000 ms) the frame at 10000 ms computes fraction 1 and calls \<^verbatim>\<open>finish\<close>;
  its \<^verbatim>\<open>#moveInternal(1)\<close> starts a one-off timer, so a frame is scheduled again.
  That frame computes fraction 1 again (state \<open>FINISHED\<close> is not backwards) and calls
  \<^verbatim>\<open>finish\<close> again, which calls the \<^verbatim>\<open>stopped\<close> hook twice more and schedules
  the next frame, and so on with every frame.
\<close>

theorem finish_reschedules_clock:
  "state (st (perform_all [SetAnimationListener (Some approving), Start False] fresh)) = PLAYING
   \<and> frames (perform_all [SetAnimationListener (Some approving), Start False] fresh) = [(2, 1)]
   \<and> state (st (perform_all
        [SetAnimationListener (Some approving), Start False, Frame 2 0 0] fresh)) = PLAYING
   \<and> frames (perform_all
        [SetAnimationListener (Some approving), Start False, Frame 2 0 0] fresh) = [(3, 1)]
   \<and> st (perform_all
        [SetAnimationListener (Some approving), Start False, Frame 2 0 0, Frame 3 10000 10000] fresh)
       = \<lparr> state = FINISHED, fraction = Fin 1, isSuspended = False, time = Some 0 \<rparr>
   \<and> frames (perform_all
        [SetAnimationListener (Some approving), Start False, Frame 2 0 0, Frame 3 10000 10000] fresh)
       = [(5, 4)]
   \<and> length (filter (\<lambda>c. case c of CallStopped s \<Rightarrow> True | _ \<Rightarrow> False) (calls (perform_all
        [SetAnimationListener (Some approving), Start False, Frame 2 0 0, Frame 3 10000 10000] fresh)))
       = 2
   \<and> frames (perform_all
        [SetAnimationListener (Some approving), Start False, Frame 2 0 0, Frame 3 10000 10000,
         Frame 5 10016 10016] fresh)
       = [(7, 6)]
   \<and> length (filter (\<lambda>c. case c of CallStopped s \<Rightarrow> True | _ \<Rightarrow> False) (calls (perform_all
        [SetAnimationListener (Some approving), Start False, Frame 2 0 0, Frame 3 10000 10000,
         Frame 5 10016 10016] fresh)))
       = 4
   \<and> frames (perform_all
        [SetAnimationListener (Some approving), Start False, Frame 2 0 0, Frame 3 10000 10000,
         Frame 5 10016 10016, Frame 7 10033 10033] fresh)
       = [(9, 8)]"
  by code_simp


section \<open>The forced operations\<close>

lemma and_then_simps [simp]:
  "and_then (None, m) f = f m"
  "and_then (Some e, m) f = (Some e, m)"
  by (simp_all add: and_then_def)

lemma cancelSuspension_idem [simp]: "cancelSuspension (cancelSuspension m) = cancelSuspension m"
  by (simp add: cancelSuspension_def Let_def)

lemma cancelSuspension_state_upd [simp]:
  "promises (cancelSuspension (m\<lparr> st := (st m)\<lparr> state := s \<rparr> \<rparr>)) = promises (cancelSuspension m)"
  "suspensionControl (cancelSuspension (m\<lparr> st := (st m)\<lparr> state := s \<rparr> \<rparr>))
     = suspensionControl (cancelSuspension m)"
  by (simp_all add: cancelSuspension_def abort_controller_def Let_def split: option.split)

lemma stop_st:
  "st (snd (stop m)) = \<lparr> state = STOPPED, fraction = Fin 0, isSuspended = False, time = time (st m) \<rparr>"
  by (simp add: stop_def Let_def moveInternal_Fin moveInternal_commit_state)

lemma finish_st:
  "st (snd (finish m)) = \<lparr> state = FINISHED, fraction = Fin 1, isSuspended = False, time = time (st m) \<rparr>"
  by (simp add: finish_def Let_def moveInternal_Fin moveInternal_commit_state)

lemma stop_keeps [simp]:
  "promises (snd (stop m)) = promises (cancelSuspension m)"
  "suspensionControl (snd (stop m)) = suspensionControl (cancelSuspension m)"
  "animationCallback (snd (stop m)) = animationCallback m"
  "dispatched (snd (stop m)) = dispatched m"
  by (simp_all add: stop_def Let_def moveInternal_Fin)

lemma finish_keeps [simp]:
  "promises (snd (finish m)) = promises (cancelSuspension m)"
  "suspensionControl (snd (finish m)) = suspensionControl (cancelSuspension m)"
  "animationCallback (snd (finish m)) = animationCallback m"
  "dispatched (snd (finish m)) = dispatched m"
  by (simp_all add: finish_def Let_def moveInternal_Fin)

lemma pause_st:
  "st (snd (pause m)) =
     (if js_le (fraction (st m)) (Fin 0)
      then \<lparr> state = STOPPED, fraction = Fin 0, isSuspended = False, time = time (st m) \<rparr>
      else if js_ge (fraction (st m)) (Fin 1)
      then \<lparr> state = FINISHED, fraction = Fin 1, isSuspended = False, time = time (st m) \<rparr>
      else \<lparr> state = PAUSED, fraction = fraction (st m), isSuspended = False, time = time (st m) \<rparr>)"
  by (simp add: pause_def Let_def stop_st finish_st)

lemma pause_keeps [simp]:
  "promises (snd (pause m)) = promises (cancelSuspension m)"
  "suspensionControl (snd (pause m)) = suspensionControl (cancelSuspension m)"
  "animationCallback (snd (pause m)) = animationCallback m"
  "dispatched (snd (pause m)) = dispatched m"
  by (simp_all add: pause_def Let_def)

lemma stop_consistent: "consistent (st (snd (stop m)))"
  by (simp add: stop_st consistent_def)

lemma finish_consistent: "consistent (st (snd (finish m)))"
  by (simp add: finish_st consistent_def)

lemma pause_consistent: "consistent (st (snd (pause m)))"
  by (simp add: pause_st consistent_def)


section \<open>Programmatic start and the start event\<close>

lemma finishStart_keeps [simp]:
  "st (finishStart backwards m) = (st m)\<lparr> isSuspended := False \<rparr>"
  "promises (finishStart backwards m) = promises m"
  "suspensionControl (finishStart backwards m) = suspensionControl m"
  "animationCallback (finishStart backwards m) = animationCallback m"
  "dispatched (finishStart backwards m) = dispatched m"
  "calls (finishStart backwards m) = calls m"
  "world (finishStart backwards m) = world m"
  by (simp_all add: finishStart_def started_def Let_def)

lemma start_abort_keeps [simp]:
  "state (st (start_abort p m)) = state p"
  "fraction (st (start_abort p m)) = fraction p"
  "isSuspended (st (start_abort p m)) = False"
  "promises (start_abort p m) = promises m"
  "suspensionControl (start_abort p m) = suspensionControl m"
  "animationCallback (start_abort p m) = animationCallback m"
  "dispatched (start_abort p m) = dispatched m"
  "calls (start_abort p m) = calls m"
  "world (start_abort p m) = world m"
  "frames (start_abort p m) = frames m"
  "disabled (start_abort p m) = disabled m"
  by (simp_all add: start_abort_def)

lemma start_tentative_keeps [simp]:
  "state (st (start_tentative backwards m)) = (if backwards then PLAYING_BACKWARDS else PLAYING)"
  "fraction (st (start_tentative backwards m)) =
     (if backwards \<and> fraction (st m) = Fin 0 then Fin 1
      else if \<not> backwards \<and> fraction (st m) = Fin 1 then Fin 0
      else fraction (st m))"
  "isSuspended (st (start_tentative backwards m)) = False"
  "time (st (start_tentative backwards m)) = time (st m)"
  "promises (start_tentative backwards m) = promises (cancelSuspension m)"
  "suspensionControl (start_tentative backwards m) = suspensionControl (cancelSuspension m)"
  "animationCallback (start_tentative backwards m) = animationCallback m"
  "dispatched (start_tentative backwards m) = dispatched m"
  "calls (start_tentative backwards m) = calls m"
  "world (start_tentative backwards m) = world m"
  "nextId (start_tentative backwards m) = nextId m"
  "frames (start_tentative backwards m) = frames m"
  "disabled (start_tentative backwards m) = disabled m"
  by (simp_all add: start_tentative_def Let_def)

lemma start_negotiate_keeps [simp]:
  "animationCallback (start_negotiate backwards p L m) = animationCallback m"
  "dispatched (start_negotiate backwards p L m) = dispatched m"
  by (simp_all add: start_negotiate_def Let_def split_beta
        split: option.split hook_result.split bool.split)

lemma start_keeps [simp]:
  "animationCallback (start backwards m) = animationCallback m"
  "dispatched (start backwards m) = dispatched m"
  by (simp_all add: start_def Let_def split: option.split)

lemma setAnimationListener_keeps [simp]:
  "state (st (setAnimationListener l m)) = state (st m)"
  "fraction (st (setAnimationListener l m)) = fraction (st m)"
  "isSuspended (st (setAnimationListener l m)) = isSuspended (st m)"
  "promises (setAnimationListener l m) = promises m"
  "suspensionControl (setAnimationListener l m) = suspensionControl m"
  "animationCallback (setAnimationListener l m) = l"
  "dispatched (setAnimationListener l m) = dispatched m"
  "calls (setAnimationListener l m) = calls m"
  "world (setAnimationListener l m) = world m"
  "disabled (setAnimationListener l m) = disabled m"
  by (simp_all add: setAnimationListener_def Let_def split: option.split)

lemma start_no_hook:
  assumes "animationCallback m = Some L" and "hook_start L = None"
    and "\<not> (isPlaying (st m) \<and> (backwards = (state (st m) = PLAYING_BACKWARDS)))"
  shows "st (start backwards m) = st (start_tentative backwards m)"
proof -
  have "start backwards m = start_negotiate backwards (st m) L (start_tentative backwards m)"
    using assms(1,3) by (auto simp: start_def Let_def)
  also have "\<dots> = finishStart backwards (start_tentative backwards m)"
    using assms(2) by (simp add: start_negotiate_def)
  finally show ?thesis
    by (simp add: start_tentative_def Let_def)
qed


text \<open>
  C8, amended: on a fresh instance with a listener that has no \<^verbatim>\<open>start\<close> hook, the
  call \<^verbatim>\<open>start(false)\<close> gives state \<open>PLAYING\<close> with the fraction still 0 and
  dispatches no event; a click on the play button does the same and then dispatches one
  \<^verbatim>\<open>start\<close> event and one \<^verbatim>\<open>change\<close> event, both with \<^verbatim>\<open>from.state\<close>
  \<open>STOPPED\<close> and \<^verbatim>\<open>to.state\<close> \<open>PLAYING\<close>.
\<close>

theorem start_event_only_on_click:
  assumes "hook_start L = None"
  shows "state (st (start False (setAnimationListener (Some L) (PlaybackControls_new w d)))) = PLAYING
    \<and> fraction (st (start False (setAnimationListener (Some L) (PlaybackControls_new w d)))) = Fin 0
    \<and> dispatched (start False (setAnimationListener (Some L) (PlaybackControls_new w d))) = []
    \<and> fst (clicked PlayBtn (setAnimationListener (Some L) (PlaybackControls_new w d))) = None
    \<and> state (st (snd (clicked PlayBtn (setAnimationListener (Some L) (PlaybackControls_new w d)))))
        = PLAYING
    \<and> fraction (st (snd (clicked PlayBtn (setAnimationListener (Some L) (PlaybackControls_new w d)))))
        = Fin 0
    \<and> map fst (dispatched (snd (clicked PlayBtn
          (setAnimationListener (Some L) (PlaybackControls_new w d))))) = [''start'', ''change'']
    \<and> map (state \<circ> t_from \<circ> snd) (dispatched (snd (clicked PlayBtn
          (setAnimationListener (Some L) (PlaybackControls_new w d))))) = [STOPPED, STOPPED]
    \<and> map (state \<circ> t_to \<circ> snd) (dispatched (snd (clicked PlayBtn
          (setAnimationListener (Some L) (PlaybackControls_new w d))))) = [PLAYING, PLAYING]"
proof -
  define m where "m = setAnimationListener (Some L) (PlaybackControls_new w d)"
  have cb: "animationCallback m = Some L" by (simp add: m_def)
  have s0: "state (st m) = STOPPED" "fraction (st m) = Fin 0" "dispatched m = []"
    "\<not> disabled m PlayBtn"
    by (simp_all add: m_def PlaybackControls_new_def)
  have np: "\<not> (isPlaying (st m) \<and> (False = (state (st m) = PLAYING_BACKWARDS)))"
    by (simp add: isPlaying_def s0)
  have eq: "st (start False m) = st (start_tentative False m)"
    by (rule start_no_hook [OF cb assms np])
  have a: "state (st (start False m)) = PLAYING"
    by (simp add: eq)
  have b: "fraction (st (start False m)) = Fin 0"
    by (simp add: eq s0)
  have c: "dispatched (start False m) = []"
    by (simp add: s0)
  have cl: "clicked PlayBtn m = (None, dispatchEvent ''start'' (st m) (start False m))"
    using s0(4) by (simp add: clicked_def Let_def)
  have e1: "fst (clicked PlayBtn m) = None"
    by (simp add: cl)
  have e2: "state (st (snd (clicked PlayBtn m))) = PLAYING"
    by (simp add: cl a)
  have e3: "fraction (st (snd (clicked PlayBtn m))) = Fin 0"
    by (simp add: cl b)
  have d: "dispatched (snd (clicked PlayBtn m))
             = [(''start'', \<lparr> t_from = st m, t_to = st (start False m) \<rparr>),
                (''change'', \<lparr> t_from = st m, t_to = st (start False m) \<rparr>)]"
    by (simp add: cl dispatchEvent_def Let_def s0)
  have e4: "map fst (dispatched (snd (clicked PlayBtn m))) = [''start'', ''change'']"
    by (simp add: d)
  have e5: "map (state \<circ> t_from \<circ> snd) (dispatched (snd (clicked PlayBtn m))) = [STOPPED, STOPPED]"
    by (simp add: d s0)
  have e6: "map (state \<circ> t_to \<circ> snd) (dispatched (snd (clicked PlayBtn m))) = [PLAYING, PLAYING]"
    by (simp add: d a)
  show ?thesis
    unfolding m_def [symmetric]
    by (rule conjI [OF a conjI [OF b conjI [OF c conjI [OF e1 conjI [OF e2 conjI [OF e3
          conjI [OF e4 conjI [OF e5 e6]]]]]]]])
qed

theorem start_event_only_on_click_witness:
  "hook_start approving = None
   \<and> state (st (start False (setAnimationListener (Some approving) (PlaybackControls_new () None))))
       = PLAYING
   \<and> dispatched (start False (setAnimationListener (Some approving) (PlaybackControls_new () None)))
       = []
   \<and> map fst (dispatched (snd (clicked PlayBtn
          (setAnimationListener (Some approving) (PlaybackControls_new () None)))))
       = [''start'', ''change'']"
proof -
  have h: "hook_start approving = None" by (simp add: approving_def)
  note t = start_event_only_on_click [OF h, of "()" None]
  show ?thesis
    by (rule conjI [OF h conjI [OF t [THEN conjunct1]
          conjI [OF t [THEN conjunct2, THEN conjunct2, THEN conjunct1]
            t [THEN conjunct2, THEN conjunct2, THEN conjunct2, THEN conjunct2, THEN conjunct2,
               THEN conjunct2, THEN conjunct1]]]])
qed

text \<open>
  C8 as stated fails: the call \<^verbatim>\<open>start(false)\<close> on the fresh instance reaches
  \<open>PLAYING\<close> at fraction 0 and no event at all has been dispatched.
\<close>

theorem programmatic_start_fires_no_event:
  "state (st (start False (setAnimationListener (Some approving) fresh))) = PLAYING
   \<and> fraction (st (start False (setAnimationListener (Some approving) fresh))) = Fin 0
   \<and> dispatched (start False (setAnimationListener (Some approving) fresh)) = []"
  by code_simp


section \<open>The negotiated jump\<close>

lemma call_stopped_calls: "\<exists>ys. calls (snd (call_stopped m)) = calls m @ ys"
  by (simp add: call_stopped_def split_beta split: option.split)

lemma call_stopped_unguarded_calls: "\<exists>ys. calls (snd (call_stopped_unguarded m)) = calls m @ ys"
proof -
  have "snd (call_stopped_unguarded m) = snd (call_stopped m)"
    by (simp add: call_stopped_unguarded_def split: prod.split stopped_outcome.split)
  then show ?thesis by (simp add: call_stopped_calls)
qed

lemma moveInternal_commit_calls: "\<exists>ys. calls (moveInternal_commit f skipTimer m) = calls m @ ys"
proof -
  have "\<exists>ys. calls (snd (call_stopped m')) = calls m @ ys" if "calls m' = calls m" for m' :: "'a PlaybackControls"
    using call_stopped_calls [of m'] that by simp
  then show ?thesis
    by (simp add: moveInternal_commit_def Let_def)
qed

lemma moveInternal_calls: "\<exists>ys. calls (snd (moveInternal f skipTimer m)) = calls m @ ys"
proof -
  have "\<exists>ys. calls (moveInternal_commit f' skipTimer m') = calls m @ ys" if "calls m' = calls m"
    for m' :: "'a PlaybackControls" and f'
    using moveInternal_commit_calls [of f' skipTimer m'] that by simp
  then show ?thesis
    by (simp add: moveInternal_def Let_def)
qed

lemma calls_chain:
  assumes "\<exists>ys. calls m1 = calls m @ ys" and "\<exists>ys. calls m2 = calls m1 @ ys"
  shows "\<exists>ys. calls m2 = calls m @ ys"
  using assms by auto

lemma and_then_calls:
  assumes "\<exists>ys. calls (snd r) = xs @ ys" and "\<And>m'. \<exists>ys. calls (snd (f m')) = calls m' @ ys"
  shows "\<exists>ys. calls (snd (and_then r f)) = xs @ ys"
proof (cases r)
  case (Pair e m1)
  show ?thesis
  proof (cases e)
    case None
    obtain ys where 1: "calls m1 = xs @ ys" using assms(1) Pair by auto
    obtain zs where 2: "calls (snd (f m1)) = calls m1 @ zs" using assms(2) by blast
    show ?thesis using Pair None 1 2 by simp
  next
    case (Some a)
    then show ?thesis using Pair assms(1) by simp
  qed
qed

lemma stop_calls: "\<exists>ys. calls (snd (stop m)) = calls m @ ys"
proof -
  have "\<exists>ys. calls (snd (moveInternal (Fin 0) False
          (cancelSuspension (m\<lparr> st := (st m)\<lparr> state := STOPPED \<rparr> \<rparr>)))) = calls m @ ys"
    using moveInternal_calls [of "Fin 0" False "cancelSuspension (m\<lparr> st := (st m)\<lparr> state := STOPPED \<rparr> \<rparr>)"]
    by simp
  then show ?thesis
    unfolding stop_def Let_def
    by (rule and_then_calls) (rule call_stopped_unguarded_calls)
qed

lemma finish_calls: "\<exists>ys. calls (snd (finish m)) = calls m @ ys"
proof -
  have "\<exists>ys. calls (snd (moveInternal (Fin 1) False
          (cancelSuspension (m\<lparr> st := (st m)\<lparr> state := FINISHED \<rparr> \<rparr>)))) = calls m @ ys"
    using moveInternal_calls [of "Fin 1" False "cancelSuspension (m\<lparr> st := (st m)\<lparr> state := FINISHED \<rparr> \<rparr>)"]
    by simp
  then show ?thesis
    unfolding finish_def Let_def
    by (rule and_then_calls) (rule call_stopped_unguarded_calls)
qed

lemma pause_calls: "\<exists>ys. calls (snd (pause m)) = calls m @ ys"
proof -
  have 1: "\<exists>ys. calls (snd (stop (cancelSuspension m))) = calls m @ ys"
    using stop_calls [of "cancelSuspension m"] by simp
  have 2: "\<exists>ys. calls (snd (finish (cancelSuspension m))) = calls m @ ys"
    using finish_calls [of "cancelSuspension m"] by simp
  have 3: "\<exists>ys. calls (snd (call_stopped_unguarded m')) = calls m @ ys" if "calls m' = calls m"
    for m' :: "'a PlaybackControls"
    using call_stopped_unguarded_calls [of m'] that by simp
  show ?thesis
    by (simp add: pause_def Let_def 1 2 3)
qed

lemma move_abort_calls: "\<exists>ys. calls (snd (move_abort p m)) = calls m @ ys"
  using pause_calls [of "m\<lparr> st := (st m)\<lparr> isSuspended := False, fraction := fraction p \<rparr> \<rparr>"]
  by (simp add: move_abort_def)

lemma move_finalize_calls: "\<exists>ys. calls (snd (move_finalize f p m)) = calls m @ ys"
proof -
  have "\<exists>ys. calls (snd (moveInternal f False (m\<lparr> st := (st m)\<lparr> isSuspended := False \<rparr> \<rparr>)))
          = calls m @ ys"
    using moveInternal_calls [of f False "m\<lparr> st := (st m)\<lparr> isSuspended := False \<rparr> \<rparr>"] by simp
  then show ?thesis
    unfolding move_finalize_def
    by (rule and_then_calls) simp
qed

lemma move_decide_calls: "\<exists>ys. calls (snd (move_decide f p r m)) = calls m @ ys"
  by (simp add: move_decide_def move_abort_calls move_finalize_calls
        split: hook_result.split bool.split)

lemma move_with_listener:
  assumes "animationCallback m = Some L"
  shows "move f m =
     move_decide f (st (cancelSuspension m))
       (fst (hook_move L (world m) ((st (cancelSuspension m))\<lparr> fraction := f \<rparr>)))
       ((cancelSuspension m)\<lparr>
           world := snd (hook_move L (world m) ((st (cancelSuspension m))\<lparr> fraction := f \<rparr>)),
           calls := calls m @ [CallMove ((st (cancelSuspension m))\<lparr> fraction := f \<rparr>)] \<rparr>)"
  using assms by (simp add: move_def Let_def split_beta)

lemma move_finalize_Fin:
  "move_finalize (Fin r) p m =
     (None, dispatchEvent
        (if isPlaying (st (moveInternal_commit (Fin (if r < 0 then 0 else if r > 1 then 1 else r))
               False (cancelTimer (m\<lparr> st := (st m)\<lparr> isSuspended := False \<rparr> \<rparr>))))
         then ''jumpplaying'' else ''jumppaused'')
        p
        (moveInternal_commit (Fin (if r < 0 then 0 else if r > 1 then 1 else r))
               False (cancelTimer (m\<lparr> st := (st m)\<lparr> isSuspended := False \<rparr> \<rparr>))))"
  by (simp add: move_finalize_def moveInternal_Fin)

text \<open>
  C10: \<^verbatim>\<open>move(f)\<close> with a listener registered first calls the listener's
  \<^verbatim>\<open>move\<close> hook, and the snapshot it passes is the current state (after the pending
  suspension was cancelled) with the fraction replaced by \<open>f\<close> as supplied, whatever
  \<open>f\<close> is; when the hook approves at once, the fraction committed afterwards is \<open>f\<close>
  clamped to the range from 0 to 1 by \<^verbatim>\<open>#moveInternal\<close>.
\<close>

theorem move_passes_unclamped_fraction:
  assumes "animationCallback m = Some L"
  shows "(\<exists>ys. calls (snd (move f m))
            = calls m @ CallMove ((st m)\<lparr> isSuspended := False, fraction := f \<rparr>) # ys)
    \<and> (fst (hook_move L (world m) ((st m)\<lparr> isSuspended := False, fraction := Fin r \<rparr>))
          = Immediate True
        \<longrightarrow> fraction (st (snd (move (Fin r) m)))
              = Fin (if r < 0 then 0 else if r > 1 then 1 else r))"
proof (rule conjI)
  have cs: "st (cancelSuspension m) = (st m)\<lparr> isSuspended := False \<rparr>"
    by (simp add: cancelSuspension_st)
  obtain ys where "calls (snd (move f m))
      = (calls m @ [CallMove ((st m)\<lparr> isSuspended := False, fraction := f \<rparr>)]) @ ys"
    using move_decide_calls [of f "st (cancelSuspension m)"
        "fst (hook_move L (world m) ((st (cancelSuspension m))\<lparr> fraction := f \<rparr>))"
        "(cancelSuspension m)\<lparr>
           world := snd (hook_move L (world m) ((st (cancelSuspension m))\<lparr> fraction := f \<rparr>)),
           calls := calls m @ [CallMove ((st (cancelSuspension m))\<lparr> fraction := f \<rparr>)] \<rparr>"]
    unfolding move_with_listener [OF assms, symmetric] by (auto simp: cs)
  then show "\<exists>ys. calls (snd (move f m))
          = calls m @ CallMove ((st m)\<lparr> isSuspended := False, fraction := f \<rparr>) # ys"
    by simp
  show "fst (hook_move L (world m) ((st m)\<lparr> isSuspended := False, fraction := Fin r \<rparr>)) = Immediate True
   \<longrightarrow> fraction (st (snd (move (Fin r) m)))
         = Fin (if r < 0 then 0 else if r > 1 then 1 else r)"
  proof
    assume a: "fst (hook_move L (world m) ((st m)\<lparr> isSuspended := False, fraction := Fin r \<rparr>)) = Immediate True"
    show "fraction (st (snd (move (Fin r) m))) = Fin (if r < 0 then 0 else if r > 1 then 1 else r)"
      by (simp add: move_with_listener [OF assms] cs a move_decide_def move_finalize_Fin)
  qed
qed

theorem move_passes_unclamped_fraction_witness:
  "animationCallback (setAnimationListener (Some approving) fresh) = Some approving
   \<and> fst (hook_move approving (world (setAnimationListener (Some approving) fresh))
        ((st (setAnimationListener (Some approving) fresh))\<lparr> isSuspended := False, fraction := Fin 7 \<rparr>))
       = Immediate True
   \<and> (\<exists>ys. calls (snd (move (Fin 7) (setAnimationListener (Some approving) fresh)))
          = calls (setAnimationListener (Some approving) fresh)
            @ CallMove ((st (setAnimationListener (Some approving) fresh))
                  \<lparr> isSuspended := False, fraction := Fin 7 \<rparr>) # ys)
   \<and> fraction (st (snd (move (Fin 7) (setAnimationListener (Some approving) fresh)))) = Fin 1"
proof -
  have h: "animationCallback (setAnimationListener (Some approving) fresh) = Some approving"
    by simp
  have g: "fst (hook_move approving (world (setAnimationListener (Some approving) fresh))
        ((st (setAnimationListener (Some approving) fresh))\<lparr> isSuspended := False, fraction := Fin 7 \<rparr>))
       = Immediate True"
    by (simp add: approving_def)
  note t = move_passes_unclamped_fraction [OF h, of "Fin 7" 7]
  have c: "fraction (st (snd (move (Fin 7) (setAnimationListener (Some approving) fresh)))) = Fin 1"
    using t [THEN conjunct2, THEN mp, OF g] by simp
  show ?thesis
    by (rule conjI [OF h conjI [OF g conjI [OF t [THEN conjunct1] c]]])
qed


lemma move_animationCallback [simp]:
  "animationCallback (snd (move_abort p m)) = animationCallback m"
  "animationCallback (snd (move_finalize f p m)) = animationCallback m"
  "animationCallback (snd (move_decide f p r m)) = animationCallback m"
  "animationCallback (snd (move f m)) = animationCallback m"
proof -
  show a: "animationCallback (snd (move_abort p m)) = animationCallback m" for p and m :: "'a PlaybackControls"
    by (simp add: move_abort_def)
  show b: "animationCallback (snd (move_finalize f p m)) = animationCallback m"
    for f p and m :: "'a PlaybackControls"
    by (cases "moveInternal f False (m\<lparr> st := (st m)\<lparr> isSuspended := False \<rparr> \<rparr>)";
        cases "fst (moveInternal f False (m\<lparr> st := (st m)\<lparr> isSuspended := False \<rparr> \<rparr>))")
       (use moveInternal_keeps(5) [of f False "m\<lparr> st := (st m)\<lparr> isSuspended := False \<rparr> \<rparr>"]
        in \<open>auto simp: move_finalize_def\<close>)
  show c: "animationCallback (snd (move_decide f p r m)) = animationCallback m"
    for f p r and m :: "'a PlaybackControls"
    by (simp add: move_decide_def a b split: hook_result.split bool.split)
  show "animationCallback (snd (move f m)) = animationCallback m"
    by (simp add: move_def Let_def split_beta a c split: option.split)
qed

text \<open>
  C4: in state \<open>PAUSED\<close>, with a listener whose \<^verbatim>\<open>move\<close> hook returns
  \<^verbatim>\<open>true\<close> at once, \<^verbatim>\<open>move(0.5)\<close> raises nothing, leaves the state
  \<open>PAUSED\<close> with fraction 0.5, and dispatches exactly two events, \<^verbatim>\<open>jumppaused\<close>
  and then \<^verbatim>\<open>change\<close>, both carrying the snapshot taken before the jump (after the
  pending suspension was cancelled) and the one after it.
\<close>

theorem move_while_paused:
  assumes "state (st m) = PAUSED"
    and "animationCallback m = Some L"
    and "\<forall>w s. fst (hook_move L w s) = Immediate True"
  shows "fst (move (Fin 0.5) m) = None
    \<and> state (st (snd (move (Fin 0.5) m))) = PAUSED
    \<and> fraction (st (snd (move (Fin 0.5) m))) = Fin 0.5
    \<and> dispatched (snd (move (Fin 0.5) m))
        = dispatched m
          @ [(''jumppaused'', \<lparr> t_from = (st m)\<lparr> isSuspended := False \<rparr>,
                                t_to = st (snd (move (Fin 0.5) m)) \<rparr>),
             (''change'', \<lparr> t_from = (st m)\<lparr> isSuspended := False \<rparr>,
                            t_to = st (snd (move (Fin 0.5) m)) \<rparr>)]"
proof -
  have cs: "st (cancelSuspension m) = (st m)\<lparr> isSuspended := False \<rparr>"
    by (simp add: cancelSuspension_st)
  define m2 where "m2 = (cancelSuspension m)\<lparr>
           world := snd (hook_move L (world m) ((st (cancelSuspension m))\<lparr> fraction := Fin 0.5 \<rparr>)),
           calls := calls m @ [CallMove ((st (cancelSuspension m))\<lparr> fraction := Fin 0.5 \<rparr>)] \<rparr>"
  define m3 where "m3 = moveInternal_commit (Fin 0.5) False
                          (cancelTimer (m2\<lparr> st := (st m2)\<lparr> isSuspended := False \<rparr> \<rparr>))"
  have st2: "state (st m2) = PAUSED" "dispatched m2 = dispatched m"
    by (simp_all add: m2_def assms(1))
  have st3: "state (st m3) = PAUSED" "fraction (st m3) = Fin 0.5" "dispatched m3 = dispatched m"
    by (simp_all add: m3_def moveInternal_commit_state st2)
  have np: "\<not> isPlaying (st m3)"
    by (simp add: isPlaying_def st3)
  have "move (Fin 0.5) m = move_finalize (Fin 0.5) ((st m)\<lparr> isSuspended := False \<rparr>) m2"
    unfolding move_with_listener [OF assms(2)] m2_def
    using assms(3) by (simp add: move_decide_def cs)
  also have "\<dots> = (None, dispatchEvent ''jumppaused'' ((st m)\<lparr> isSuspended := False \<rparr>) m3)"
    unfolding move_finalize_Fin using np by (simp add: m3_def)
  finally have mv: "move (Fin 0.5) m
      = (None, dispatchEvent ''jumppaused'' ((st m)\<lparr> isSuspended := False \<rparr>) m3)" .
  have a: "fst (move (Fin 0.5) m) = None" unfolding mv by simp
  have b: "state (st (snd (move (Fin 0.5) m))) = PAUSED" unfolding mv by (simp add: st3)
  have c: "fraction (st (snd (move (Fin 0.5) m))) = Fin 0.5" unfolding mv using st3(2) by simp
  have d: "dispatched (snd (move (Fin 0.5) m))
        = dispatched m
          @ [(''jumppaused'', \<lparr> t_from = (st m)\<lparr> isSuspended := False \<rparr>,
                                t_to = st (snd (move (Fin 0.5) m)) \<rparr>),
             (''change'', \<lparr> t_from = (st m)\<lparr> isSuspended := False \<rparr>,
                            t_to = st (snd (move (Fin 0.5) m)) \<rparr>)]"
    unfolding mv by (simp add: dispatchEvent_def Let_def st3)
  show ?thesis
    by (rule conjI [OF a conjI [OF b conjI [OF c d]]])
qed

theorem move_while_paused_witness:
  "state (st (snd (move (Fin 0.25) (setAnimationListener (Some approving) fresh)))) = PAUSED
   \<and> animationCallback (snd (move (Fin 0.25) (setAnimationListener (Some approving) fresh)))
       = Some approving
   \<and> (\<forall>w s. fst (hook_move approving w s) = Immediate True)
   \<and> state (st (snd (move (Fin 0.5)
         (snd (move (Fin 0.25) (setAnimationListener (Some approving) fresh)))))) = PAUSED
   \<and> fraction (st (snd (move (Fin 0.5)
         (snd (move (Fin 0.25) (setAnimationListener (Some approving) fresh)))))) = Fin 0.5"
proof -
  have h1: "state (st (snd (move (Fin 0.25) (setAnimationListener (Some approving) fresh)))) = PAUSED"
    by code_simp
  have h2: "animationCallback (snd (move (Fin 0.25) (setAnimationListener (Some approving) fresh)))
       = Some approving"
    by simp
  have h3: "\<forall>w s. fst (hook_move approving w s) = Immediate True"
    by (simp add: approving_def)
  note t = move_while_paused [OF h1 h2 h3]
  show ?thesis
    by (rule conjI [OF h1 conjI [OF h2 conjI [OF h3
          conjI [OF t [THEN conjunct2, THEN conjunct1]
                    t [THEN conjunct2, THEN conjunct2, THEN conjunct1]]]]])
qed


section \<open>A refused start\<close>






section \<open>Steps\<close>

lemma moveInternal_unit_range:
  assumes "0 \<le> r" and "r \<le> 1"
  shows "moveInternal (Fin r) skipTimer m =
           (None, moveInternal_commit (Fin r) skipTimer (if skipTimer then m else cancelTimer m))"
  using assms by (simp add: moveInternal_Fin)

lemma step_immediate:
  assumes "animationCallback m = Some L" and "hook_step L = Some h"
    and "fst (h (world m) (fraction (st m)) isLeft) = Immediate (StepNumber x)"
  shows "step isLeft m =
           moveInternal x False
             ((cancelSuspension m)\<lparr> world := snd (h (world m) (fraction (st m)) isLeft),
                                     calls := calls m @ [CallStep (fraction (st m)) isLeft] \<rparr>)"
  using assms by (simp add: step_def step_decide_def Let_def split_beta)

lemma settle_step:
  assumes "map_of (promises m) p = Some StepReaction" and "0 \<le> r" and "r \<le> 1"
  shows "settle p (Fulfilled (VNum (Fin r))) now m =
           moveInternal (Fin r) False
             (m\<lparr> promises := remove_key p (promises m), st := (st m)\<lparr> isSuspended := False \<rparr> \<rparr>)"
  using assms
  by (simp add: settle_def react_step_def Let_def js_ge_def js_le_def moveInternal_unit_range)

text \<open>
  C9, amended: a step whose hook returns a number \<open>r\<close> in the range from 0 to 1, at once or
  through a fulfilled promise, raises nothing and commits \<open>r\<close> as the fraction through
  \<^verbatim>\<open>#moveInternal\<close>. The discrete state follows the commit step: a resting state
  becomes \<open>STOPPED\<close>, \<open>FINISHED\<close> or \<open>PAUSED\<close> as \<open>r\<close> is 0, 1 or in between; a
  playing state stays, except that \<open>PLAYING\<close> at \<open>r = 1\<close> becomes \<open>FINISHED\<close> and
  \<open>PLAYING_BACKWARDS\<close> at \<open>r = 0\<close> becomes \<open>STOPPED\<close>. A step never starts playback
  and never reverses it.
\<close>

theorem step_commits_fraction:
  assumes "0 \<le> r" and "r \<le> 1"
  shows "(animationCallback m = Some L \<and> hook_step L = Some h
          \<and> fst (h (world m) (fraction (st m)) isLeft) = Immediate (StepNumber (Fin r))
        \<longrightarrow> fst (step isLeft m) = None
            \<and> fraction (st (snd (step isLeft m))) = Fin r
            \<and> state (st (snd (step isLeft m))) =
                (if state (st m) \<in> {PAUSED, STOPPED, FINISHED}
                    \<or> (r = 0 \<and> state (st m) = PLAYING_BACKWARDS)
                    \<or> (r = 1 \<and> state (st m) = PLAYING)
                 then (if r = 0 then STOPPED else if r = 1 then FINISHED else PAUSED)
                 else state (st m)))
    \<and> (map_of (promises m) p = Some StepReaction
        \<longrightarrow> fst (settle p (Fulfilled (VNum (Fin r))) now m) = None
            \<and> fraction (st (snd (settle p (Fulfilled (VNum (Fin r))) now m))) = Fin r
            \<and> state (st (snd (settle p (Fulfilled (VNum (Fin r))) now m))) =
                (if state (st m) \<in> {PAUSED, STOPPED, FINISHED}
                    \<or> (r = 0 \<and> state (st m) = PLAYING_BACKWARDS)
                    \<or> (r = 1 \<and> state (st m) = PLAYING)
                 then (if r = 0 then STOPPED else if r = 1 then FINISHED else PAUSED)
                 else state (st m)))"
proof (intro conjI impI)
  assume a: "animationCallback m = Some L \<and> hook_step L = Some h
          \<and> fst (h (world m) (fraction (st m)) isLeft) = Immediate (StepNumber (Fin r))"
  define m2 where "m2 = (cancelSuspension m)\<lparr> world := snd (h (world m) (fraction (st m)) isLeft),
                                     calls := calls m @ [CallStep (fraction (st m)) isLeft] \<rparr>"
  have eq: "step isLeft m = (None, moveInternal_commit (Fin r) False (cancelTimer m2))"
    using a assms by (simp add: step_immediate [of m L h isLeft "Fin r"] m2_def [symmetric]
        moveInternal_unit_range)
  have s2: "state (st (cancelTimer m2)) = state (st m)"
    by (simp add: m2_def)
  show "fst (step isLeft m) = None" by (simp add: eq)
  show "fraction (st (snd (step isLeft m))) = Fin r" by (simp add: eq)
  show "state (st (snd (step isLeft m))) =
                (if state (st m) \<in> {PAUSED, STOPPED, FINISHED}
                    \<or> (r = 0 \<and> state (st m) = PLAYING_BACKWARDS)
                    \<or> (r = 1 \<and> state (st m) = PLAYING)
                 then (if r = 0 then STOPPED else if r = 1 then FINISHED else PAUSED)
                 else state (st m))"
    unfolding eq snd_conv moveInternal_commit_state s2 by simp
next
  assume a: "map_of (promises m) p = Some StepReaction"
  define m2 where "m2 = m\<lparr> promises := remove_key p (promises m), st := (st m)\<lparr> isSuspended := False \<rparr> \<rparr>"
  have eq: "settle p (Fulfilled (VNum (Fin r))) now m
              = (None, moveInternal_commit (Fin r) False (cancelTimer m2))"
    using assms by (simp add: settle_step [OF a assms] m2_def [symmetric] moveInternal_unit_range)
  have s2: "state (st (cancelTimer m2)) = state (st m)"
    by (simp add: m2_def)
  show "fst (settle p (Fulfilled (VNum (Fin r))) now m) = None" by (simp add: eq)
  show "fraction (st (snd (settle p (Fulfilled (VNum (Fin r))) now m))) = Fin r" by (simp add: eq)
  show "state (st (snd (settle p (Fulfilled (VNum (Fin r))) now m))) =
                (if state (st m) \<in> {PAUSED, STOPPED, FINISHED}
                    \<or> (r = 0 \<and> state (st m) = PLAYING_BACKWARDS)
                    \<or> (r = 1 \<and> state (st m) = PLAYING)
                 then (if r = 0 then STOPPED else if r = 1 then FINISHED else PAUSED)
                 else state (st m))"
    unfolding eq snd_conv moveInternal_commit_state s2 by simp
qed


theorem step_commits_fraction_witness:
  "(0::real) \<le> 1 \<and> (1::real) \<le> 1
   \<and> animationCallback (setAnimationListener (Some stepping) fresh) = Some stepping
   \<and> hook_step stepping = Some (\<lambda>w f isLeft. (Immediate (StepNumber (Fin 1)), w))
   \<and> map_of (promises (perform_all [SetAnimationListener (Some deferring), Step False] fresh)) 1
       = Some StepReaction
   \<and> fraction (st (snd (step False (setAnimationListener (Some stepping) fresh)))) = Fin 1
   \<and> fraction (st (snd (settle 1 (Fulfilled (VNum (Fin 1))) 0
         (perform_all [SetAnimationListener (Some deferring), Step False] fresh)))) = Fin 1"
proof -
  have r0: "(0::real) \<le> 1" and r1: "(1::real) \<le> 1" by simp_all
  have h1: "animationCallback (setAnimationListener (Some stepping) fresh) = Some stepping"
    by simp
  have h2: "hook_step stepping = Some (\<lambda>w f isLeft. (Immediate (StepNumber (Fin 1)), w))"
    by (simp add: stepping_def)
  have h3: "fst ((\<lambda>w f isLeft. (Immediate (StepNumber (Fin 1)), w))
                   (world (setAnimationListener (Some stepping) fresh))
                   (fraction (st (setAnimationListener (Some stepping) fresh))) False)
              = Immediate (StepNumber (Fin 1))"
    by simp
  have h4: "map_of (promises (perform_all [SetAnimationListener (Some deferring), Step False] fresh)) 1
       = Some StepReaction"
    by code_simp
  note ta = step_commits_fraction [OF r0 r1, THEN conjunct1, THEN mp, OF conjI [OF h1 conjI [OF h2 h3]]]
  note tb = step_commits_fraction [OF r0 r1, THEN conjunct2, THEN mp, OF h4]
  show ?thesis
    by (rule conjI [OF r0 conjI [OF r1 conjI [OF h1 conjI [OF h2 conjI [OF h4
          conjI [OF ta [THEN conjunct2, THEN conjunct1] tb [THEN conjunct2, THEN conjunct1]]]]]]])
qed

text \<open>
  C9 as stated fails: while \<open>PLAYING\<close>, a step whose hook returns 1 ends playback, the
  state becomes \<open>FINISHED\<close>.
\<close>

theorem step_changes_playing_state:
  "state (st (perform_all [SetAnimationListener (Some stepping), Start False] fresh)) = PLAYING
   \<and> fst (step False (perform_all [SetAnimationListener (Some stepping), Start False] fresh)) = None
   \<and> st (snd (step False (perform_all [SetAnimationListener (Some stepping), Start False] fresh)))
       = \<lparr> state = FINISHED, fraction = Fin 1, isSuspended = False, time = Some 0 \<rparr>"
  by code_simp


section \<open>The invariant of state and fraction\<close>

lemma consistent_upd [simp]:
  "consistent (s\<lparr> isSuspended := b \<rparr>) = consistent s"
  "consistent (s\<lparr> time := t \<rparr>) = consistent s"
  by (simp_all add: consistent_def)

lemma consistent_playing [simp]:
  "consistent (s\<lparr> state := PLAYING \<rparr>)"
  "consistent (s\<lparr> state := PLAYING_BACKWARDS \<rparr>)"
  "consistent (s\<lparr> state := PAUSED \<rparr>)"
  by (simp_all add: consistent_def)

lemma consistent_eq:
  "state s' = state s \<Longrightarrow> fraction s' = fraction s \<Longrightarrow> consistent s' = consistent s"
  by (simp add: consistent_def)

lemma promises_consistent_cong:
  "promises m' = promises m \<Longrightarrow> promises_consistent m' = promises_consistent m"
  by (simp add: promises_consistent_def)

lemma remove_key_all: "list_all P xs \<Longrightarrow> list_all P (remove_key k xs)"
  by (simp add: remove_key_def list_all_iff)

lemma cancelSuspension_promises:
  "promises (cancelSuspension m) =
     (if isSuspended (st m)
      then (case suspensionControl m of None \<Rightarrow> promises m | Some p \<Rightarrow> remove_key p (promises m))
      else promises m)"
  by (simp add: cancelSuspension_def abort_controller_def Let_def split: option.split)

lemma cancelSuspension_not_suspended: "\<not> isSuspended (st m) \<Longrightarrow> cancelSuspension m = m"
  by (simp add: cancelSuspension_def)

lemma cancelSuspension_promises_consistent:
  "promises_consistent m \<Longrightarrow> promises_consistent (cancelSuspension m)"
  by (simp add: promises_consistent_def cancelSuspension_promises remove_key_all split: option.split)

lemma promises_consistent_append:
  "promises m' = promises m @ (if c then [(n, k)] else []) \<Longrightarrow>
   promises_consistent m' = (promises_consistent m \<and> (c \<longrightarrow> reaction_consistent k))"
  by (auto simp: promises_consistent_def)

lemma stop_invariant: "promises_consistent m \<Longrightarrow> invariant (snd (stop m))"
  by (simp add: invariant_def stop_consistent
        promises_consistent_cong [of "snd (stop m)" "cancelSuspension m"]
        cancelSuspension_promises_consistent)

lemma finish_invariant: "promises_consistent m \<Longrightarrow> invariant (snd (finish m))"
  by (simp add: invariant_def finish_consistent
        promises_consistent_cong [of "snd (finish m)" "cancelSuspension m"]
        cancelSuspension_promises_consistent)

lemma pause_invariant: "promises_consistent m \<Longrightarrow> invariant (snd (pause m))"
  by (simp add: invariant_def pause_consistent
        promises_consistent_cong [of "snd (pause m)" "cancelSuspension m"]
        cancelSuspension_promises_consistent)

lemma moveInternal_invariant: "invariant m \<Longrightarrow> invariant (snd (moveInternal f skipTimer m))"
  by (simp add: invariant_def moveInternal_consistent'
        promises_consistent_cong [of "snd (moveInternal f skipTimer m)" m])

lemma invariant_cong:
  "state (st m') = state (st m) \<Longrightarrow> fraction (st m') = fraction (st m)
   \<Longrightarrow> promises m' = promises m \<Longrightarrow> invariant m' = invariant m"
  by (simp add: invariant_def consistent_eq [of "st m'" "st m"] promises_consistent_cong [of m' m])

lemma cancelSuspension_invariant: "invariant m \<Longrightarrow> invariant (cancelSuspension m)"
  by (simp add: invariant_def cancelSuspension_promises_consistent
        consistent_eq [of "st (cancelSuspension m)" "st m"])

subsection \<open>start\<close>

lemma start_negotiate_promises:
  "promises (start_negotiate backwards p L m) =
     promises m @
       (if (case hook_start L of
              None \<Rightarrow> False
            | Some h \<Rightarrow> fst (h (world m) (fraction (st m)) backwards) = Deferred)
        then [(nextId m, StartReaction backwards p)] else [])"
  by (simp add: start_negotiate_def split_beta Let_def
        split: option.split hook_result.split bool.split)

lemma start_negotiate_consistent:
  "consistent p \<Longrightarrow> consistent (st m) \<Longrightarrow> consistent (st (start_negotiate backwards p L m))"
  by (simp add: start_negotiate_def split_beta start_abort_def Let_def
        split: option.split hook_result.split bool.split)

lemma start_tentative_consistent: "consistent (st (start_tentative backwards m))"
  by (simp add: consistent_def)

lemma start_invariant: "invariant m \<Longrightarrow> invariant (start backwards m)"
proof -
  assume inv: "invariant m"
  have pc: "promises_consistent (start_tentative backwards m)"
    using inv cancelSuspension_promises_consistent [of m]
    by (simp add: invariant_def
          promises_consistent_cong [of "start_tentative backwards m" "cancelSuspension m"])
  have "invariant (start_negotiate backwards (st m) L (start_tentative backwards m))" for L
    using inv pc
    by (simp add: invariant_def start_negotiate_consistent start_tentative_consistent
          promises_consistent_append [OF start_negotiate_promises])
  then show ?thesis
    using inv by (simp add: start_def Let_def split: option.split)
qed


subsection \<open>move and step\<close>

lemma move_abort_promises [simp]: "promises (snd (move_abort p m)) = promises m"
  by (simp add: move_abort_def cancelSuspension_promises)

lemma move_abort_invariant: "promises_consistent m \<Longrightarrow> invariant (snd (move_abort p m))"
  unfolding move_abort_def
  by (rule pause_invariant) (simp add: promises_consistent_def)

lemma move_finalize_promises [simp]: "promises (snd (move_finalize f p m)) = promises m"
proof (cases "moveInternal f False (m\<lparr> st := (st m)\<lparr> isSuspended := False \<rparr> \<rparr>)")
  case (Pair e m1)
  have "promises m1 = promises m"
    using moveInternal_keeps(3) [of f False "m\<lparr> st := (st m)\<lparr> isSuspended := False \<rparr> \<rparr>"] Pair
    by simp
  then show ?thesis
    using Pair by (cases e) (simp_all add: move_finalize_def)
qed

lemma move_finalize_invariant:
  assumes "invariant m"
  shows "invariant (snd (move_finalize f p m))"
proof (cases "moveInternal f False (m\<lparr> st := (st m)\<lparr> isSuspended := False \<rparr> \<rparr>)")
  case (Pair e m1)
  have "invariant (m\<lparr> st := (st m)\<lparr> isSuspended := False \<rparr> \<rparr>)"
    using assms by (simp add: invariant_def promises_consistent_def)
  then have "invariant m1"
    using moveInternal_invariant [of "m\<lparr> st := (st m)\<lparr> isSuspended := False \<rparr> \<rparr>" f False] Pair
    by simp
  then show ?thesis
    using Pair
    by (cases e) (simp_all add: move_finalize_def invariant_def promises_consistent_def)
qed


lemma move_decide_invariant:
  assumes "invariant m"
  shows "invariant (snd (move_decide f p r m))"
proof -
  have pc: "promises_consistent m" using assms by (simp add: invariant_def)
  show ?thesis
  proof (cases r)
    case Nothing
    then show ?thesis by (simp add: move_decide_def move_abort_invariant pc)
  next
    case (Immediate b)
    then show ?thesis
      by (cases b) (simp_all add: move_decide_def move_abort_invariant pc
            move_finalize_invariant assms)
  next
    case Deferred
    then show ?thesis
      using assms by (simp add: move_decide_def invariant_def promises_consistent_def)
  qed
qed

lemma invariant_world_calls [simp]:
  "invariant (m\<lparr> world := w, calls := c \<rparr>) = invariant m"
  by (simp add: invariant_def promises_consistent_def)

lemma move_invariant:
  assumes "invariant m"
  shows "invariant (snd (move f m))"
proof -
  have c: "invariant (cancelSuspension m)"
    using assms by (rule cancelSuspension_invariant)
  then have pc: "promises_consistent (cancelSuspension m)"
    by (simp add: invariant_def)
  show ?thesis
  proof (cases "animationCallback m")
    case None
    then show ?thesis
      by (simp add: move_def Let_def move_abort_invariant pc)
  next
    case (Some L)
    show ?thesis
      unfolding move_with_listener [OF Some]
      by (rule move_decide_invariant) (simp add: c)
  qed
qed

lemma step_decide_invariant:
  assumes "invariant m"
  shows "invariant (snd (step_decide r m))"
proof (cases r)
  case Nothing
  then show ?thesis using assms by (simp add: step_decide_def)
next
  case (Immediate v)
  then show ?thesis
    using assms by (cases v) (simp_all add: step_decide_def moveInternal_invariant)
next
  case Deferred
  then show ?thesis
    using assms by (simp add: step_decide_def invariant_def promises_consistent_def)
qed

lemma step_invariant:
  assumes "invariant m"
  shows "invariant (snd (step isLeft m))"
proof -
  have "invariant (snd (step_decide r ((cancelSuspension m)\<lparr> world := w, calls := c \<rparr>)))" for r w c
    by (rule step_decide_invariant) (simp add: cancelSuspension_invariant assms)
  then show ?thesis
    using assms by (simp add: step_def Let_def split_beta split: option.split)
qed

subsection \<open>The clock\<close>

lemma invariant_helpers [simp]:
  "invariant (upd_time t g m) = invariant m"
  "invariant (cancelTimer m) = invariant m"
  "invariant (requestAnimationFrame t c m) = invariant m"
  "invariant (startTimer oneOff m) = invariant m"
  "invariant (dispatchEvent ty s m) = invariant m"
  "invariant (updateActivation a b m) = invariant m"
  "invariant (m\<lparr> frames := fs \<rparr>) = invariant m"
  "invariant (m\<lparr> closures := cs \<rparr>) = invariant m"
  "invariant (m\<lparr> durationAttr := da \<rparr>) = invariant m"
  by (simp_all add: invariant_def promises_consistent_def)

lemma and_then_invariant:
  assumes "invariant (snd r)" and "\<And>m'. invariant m' \<Longrightarrow> invariant (snd (f m'))"
  shows "invariant (snd (and_then r f))"
  using assms by (cases r; cases "fst r") (auto simp: and_then_def)

lemma run_decide_invariant:
  assumes "invariant m"
  shows "invariant (snd (run_decide c cl f now r m))"
proof -
  have pc: "promises_consistent m" using assms by (simp add: invariant_def)
  have mi: "invariant (snd (and_then (moveInternal f True m)
               (\<lambda>m1. (None, requestAnimationFrame (cl_timeInfo cl) c m1))))"
    by (rule and_then_invariant) (simp_all add: moveInternal_invariant assms)
  show ?thesis
  proof (cases r)
    case Nothing
    then show ?thesis using assms by (simp add: run_decide_def pause_invariant pc)
  next
    case (Immediate b)
    then show ?thesis
      using assms mi by (cases b) (simp_all add: run_decide_def pause_invariant pc)
  next
    case Deferred
    then show ?thesis
      using assms by (simp add: run_decide_def invariant_def promises_consistent_def)
  qed
qed

lemma run_move_invariant:
  assumes "invariant m"
  shows "invariant (snd (run_move c cl f now m))"
proof -
  have "invariant (snd (run_decide c cl f now r (m\<lparr> world := w, calls := cs \<rparr>)))" for r w cs
    by (rule run_decide_invariant) (simp add: assms)
  then show ?thesis
    using assms by (simp add: run_move_def split_beta split: option.split)
qed

lemma run_invariant:
  assumes "invariant m"
  shows "invariant (snd (run c timestamp now m))"
proof -
  have pc: "promises_consistent m'" if "promises m' = promises m" for m' :: "'a PlaybackControls"
    using assms that by (simp add: invariant_def promises_consistent_def)
  have iv: "invariant m'"
    if "promises m' = promises m" "st m' = st m" for m' :: "'a PlaybackControls"
    using assms that by (simp add: invariant_def promises_consistent_def)
  show ?thesis
    using assms
    by (simp add: run_def Let_def finish_invariant stop_invariant run_move_invariant pc iv
          split: option.split)
qed

lemma fire_frame_invariant: "invariant m \<Longrightarrow> invariant (snd (fire_frame h timestamp now m))"
  by (simp add: fire_frame_def run_invariant split: option.split)


subsection \<open>Settling\<close>

lemma promises_consistent_removed:
  "promises_consistent m \<Longrightarrow> promises_consistent (m\<lparr> promises := remove_key p (promises m) \<rparr>)"
  by (simp add: promises_consistent_def remove_key_all)

lemma pending_reaction_consistent:
  "promises_consistent m \<Longrightarrow> map_of (promises m) p = Some k \<Longrightarrow> reaction_consistent k"
  by (force simp: promises_consistent_def list_all_iff dest: map_of_SomeD)

lemma invariant_promises: "invariant m \<Longrightarrow> promises_consistent m"
  by (simp add: invariant_def)

lemma react_start_invariant:
  assumes "invariant m" and "consistent p"
  shows "invariant (react_start backwards p r m)"
  using assms
  by (simp add: react_start_def invariant_def promises_consistent_def start_abort_def
        split: resolution.split)

lemma react_move_invariant:
  assumes "invariant m"
  shows "invariant (snd (react_move f p r m))"
proof -
  have pc: "promises_consistent m" using assms by (simp add: invariant_def)
  have "invariant (snd (case x of (None, m1) \<Rightarrow> (None, m1) | (Some e, m1) \<Rightarrow> move_abort p m1))"
    if "invariant (snd x)" for x :: "'a outcome"
    using that by (cases x; cases "fst x") (auto intro: move_abort_invariant invariant_promises)
  then show ?thesis
    by (simp add: react_move_def move_abort_invariant pc move_finalize_invariant assms
          split: resolution.split)
qed

lemma react_step_invariant:
  assumes "invariant m"
  shows "invariant (snd (react_step r m))"
proof -
  define m1 where "m1 = m\<lparr> st := (st m)\<lparr> isSuspended := False \<rparr> \<rparr>"
  have i1: "invariant m1"
    using assms by (simp add: m1_def invariant_def promises_consistent_def)
  have *: "invariant (snd (case moveInternal x False m1 of
                          (None, m2) \<Rightarrow> (None, m2)
                        | (Some e, m2) \<Rightarrow> (None, m2\<lparr> st := (st m2)\<lparr> isSuspended := False \<rparr> \<rparr>)))" for x
    using moveInternal_invariant [OF i1, of x False]
    by (cases "moveInternal x False m1"; cases "fst (moveInternal x False m1)")
       (auto simp: invariant_def promises_consistent_def)
  show ?thesis
    unfolding react_step_def Let_def m1_def [symmetric]
    using i1 * by (auto split: resolution.split jsval.split)
qed

lemma tick_catch_invariant: "promises_consistent m \<Longrightarrow> invariant (snd (tick_catch m))"
  unfolding tick_catch_def
  by (rule pause_invariant) (simp add: promises_consistent_def)

lemma react_tick_invariant:
  assumes "invariant m"
  shows "invariant (snd (react_tick c f s r now m))"
proof -
  have pc: "promises_consistent m" using assms by (simp add: invariant_def)
  define m1 where "m1 = m\<lparr> st := (st m)\<lparr> isSuspended := False \<rparr> \<rparr>"
  have i1: "invariant m1"
    using assms by (simp add: m1_def invariant_def promises_consistent_def)
  have pc1: "promises_consistent m1" using i1 by (simp add: invariant_def)
  have guard: "invariant (snd (case x of (None, m4) \<Rightarrow> (None, m4) | (Some e, m4) \<Rightarrow> tick_catch m4))"
    if "invariant (snd x)" for x :: "'a outcome"
    using that by (cases x; cases "fst x") (auto intro: tick_catch_invariant invariant_promises)
  have cont: "invariant (snd (and_then (moveInternal f True m2)
                 (\<lambda>m3. (None, requestAnimationFrame t c m3))))"
    if "invariant m2" for m2 :: "'a PlaybackControls" and t
    by (rule and_then_invariant) (simp_all add: moveInternal_invariant that)
  show ?thesis
  proof (cases r)
    case Rejected
    then show ?thesis
      by (simp add: react_tick_def tick_catch_invariant [OF pc])
  next
    case (Fulfilled v)
    show ?thesis
    proof (cases "truthy v")
      case True
      have "invariant (snd (case closures m1 c of
                            None \<Rightarrow> (None, m1)
                          | Some cl \<Rightarrow>
                              (let elapsed = now - s;
                                   m2 = m1\<lparr> closures := (closures m1)(c \<mapsto>
                                          cl\<lparr> cl_start := map_option (\<lambda>s. s + elapsed) (cl_start cl) \<rparr>) \<rparr>
                               in and_then (moveInternal f True m2)
                                    (\<lambda>m3. (None, requestAnimationFrame (cl_timeInfo cl) c m3)))))"
        using i1 by (simp add: Let_def cont split: option.split)
      from guard [OF this] show ?thesis
        unfolding react_tick_def Let_def m1_def [symmetric] Fulfilled
        using True by simp
    next
      case False
      have "invariant (snd (pause m1))"
        by (rule pause_invariant [OF pc1])
      from guard [OF this] show ?thesis
        unfolding react_tick_def Let_def m1_def [symmetric] Fulfilled
        using False by simp
    qed
  qed
qed

lemma settle_invariant:
  assumes "invariant m"
  shows "invariant (snd (settle p r now m))"
proof (cases "map_of (promises m) p")
  case None
  then show ?thesis using assms by (simp add: settle_def)
next
  case (Some k)
  define m1 where "m1 = m\<lparr> promises := remove_key p (promises m) \<rparr>"
  have pc: "promises_consistent m" using assms by (simp add: invariant_def)
  have i1: "invariant m1"
    using assms promises_consistent_removed [OF pc, of p] by (simp add: m1_def invariant_def)
  have rk: "reaction_consistent k"
    by (rule pending_reaction_consistent [OF pc Some])
  show ?thesis
  proof (cases k)
    case (StartReaction b prev)
    then show ?thesis
      using Some rk i1 by (simp add: settle_def m1_def [symmetric] react_start_invariant)
  next
    case (MoveReaction f prev)
    then show ?thesis
      using Some i1 by (simp add: settle_def m1_def [symmetric] react_move_invariant)
  next
    case StepReaction
    then show ?thesis
      using Some i1 by (simp add: settle_def m1_def [symmetric] react_step_invariant)
  next
    case (TickReaction c f s)
    then show ?thesis
      using Some i1 by (simp add: settle_def m1_def [symmetric] react_tick_invariant)
  qed
qed

subsection \<open>Listener, duration, clicks\<close>

lemma setAnimationListener_invariant: "invariant m \<Longrightarrow> invariant (setAnimationListener l m)"
  by (simp add: invariant_cong [of "setAnimationListener l m" m])

lemma setAnimationDuration_invariant:
  assumes "invariant m"
  shows "invariant (snd (setAnimationDuration d m))"
proof -
  have pc: "promises_consistent m" using assms by (simp add: invariant_def)
  have "invariant (snd (and_then (pause m)
                 (\<lambda>m1. (None, start b
                           (case time (st m1) of
                              None \<Rightarrow> m1
                            | Some t \<Rightarrow> upd_time t (\<lambda>T. T\<lparr> durationMillis := d \<rparr>) m1)))))" for b
    by (rule and_then_invariant)
       (simp_all add: pause_invariant pc start_invariant split: option.split)
  then show ?thesis
    using assms by (simp add: setAnimationDuration_def Let_def)
qed

lemma attributeChangedCallback_invariant:
  "invariant m \<Longrightarrow> invariant (snd (attributeChangedCallback v m))"
  by (simp add: attributeChangedCallback_def Let_def setAnimationDuration_invariant
        split: option.split)

lemma clicked_invariant:
  assumes "invariant m"
  shows "invariant (snd (clicked b m))"
proof -
  have pc: "promises_consistent m" using assms by (simp add: invariant_def)
  have p: "invariant (snd (and_then (pause m) (\<lambda>m1. (None, dispatchEvent ty s m1))))" for ty s
    by (rule and_then_invariant) (simp_all add: pause_invariant pc)
  have q: "invariant (snd (and_then (stop m) (\<lambda>m1. (None, dispatchEvent ty s m1))))" for ty s
    by (rule and_then_invariant) (simp_all add: stop_invariant pc)
  show ?thesis
    using assms by (cases b) (simp_all add: clicked_def Let_def start_invariant p q)
qed

subsection \<open>Every run\<close>

lemma perform_invariant: "invariant m \<Longrightarrow> invariant (snd (perform a m))"
  by (cases a)
     (simp_all add: start_invariant stop_invariant finish_invariant pause_invariant
        move_invariant step_invariant setAnimationListener_invariant
        attributeChangedCallback_invariant clicked_invariant fire_frame_invariant
        settle_invariant invariant_def [of m])

lemma perform_all_invariant: "invariant m \<Longrightarrow> invariant (perform_all as m)"
  by (induction as arbitrary: m) (simp_all add: perform_invariant)

lemma new_invariant: "invariant (PlaybackControls_new w d)"
  by (simp add: invariant_def consistent_def promises_consistent_def PlaybackControls_new_def)

text \<open>
  C1: in every state an instance reaches from its initial state by public calls
  (\<^verbatim>\<open>start\<close>, \<^verbatim>\<open>stop\<close>, \<^verbatim>\<open>finish\<close>, \<^verbatim>\<open>pause\<close>, \<^verbatim>\<open>move\<close>,
  \<^verbatim>\<open>setAnimationListener\<close>, a change of the duration attribute), keys and clicks on the
  widget, animation frames and settlements of the listener's promises, whatever the
  listeners do and also after an operation that ended in an exception: state \<open>STOPPED\<close>
  has fraction 0 and state \<open>FINISHED\<close> has fraction 1.
\<close>

theorem boundary_states_have_boundary_fractions:
  "(state (st (perform_all as (PlaybackControls_new w d))) = STOPPED
      \<longrightarrow> fraction (st (perform_all as (PlaybackControls_new w d))) = Fin 0)
   \<and> (state (st (perform_all as (PlaybackControls_new w d))) = FINISHED
      \<longrightarrow> fraction (st (perform_all as (PlaybackControls_new w d))) = Fin 1)"
  using perform_all_invariant [OF new_invariant, of as w d]
  by (simp add: invariant_def consistent_def)

theorem boundary_states_have_boundary_fractions_witness:
  "state (st (perform_all [SetAnimationListener (Some approving), Move (Fin 0.5), Stop]
       (PlaybackControls_new () None))) = STOPPED
   \<and> fraction (st (perform_all [SetAnimationListener (Some approving), Move (Fin 0.5), Stop]
       (PlaybackControls_new () None))) = Fin 0
   \<and> state (st (perform_all [SetAnimationListener (Some approving), Start False, Frame 2 0 0,
         Frame 3 10000 10000] (PlaybackControls_new () None))) = FINISHED
   \<and> fraction (st (perform_all [SetAnimationListener (Some approving), Start False, Frame 2 0 0,
         Frame 3 10000 10000] (PlaybackControls_new () None))) = Fin 1"
proof -
  have s1: "state (st (perform_all [SetAnimationListener (Some approving), Move (Fin 0.5), Stop]
       (PlaybackControls_new () None))) = STOPPED"
    by code_simp
  have s2: "state (st (perform_all [SetAnimationListener (Some approving), Start False, Frame 2 0 0,
         Frame 3 10000 10000] (PlaybackControls_new () None))) = FINISHED"
    by code_simp
  note t1 = boundary_states_have_boundary_fractions
    [of "[SetAnimationListener (Some approving), Move (Fin 0.5), Stop]" "()" None,
     THEN conjunct1, THEN mp, OF s1]
  note t2 = boundary_states_have_boundary_fractions
    [of "[SetAnimationListener (Some approving), Start False, Frame 2 0 0, Frame 3 10000 10000]"
        "()" None, THEN conjunct2, THEN mp, OF s2]
  show ?thesis
    by (rule conjI [OF s1 conjI [OF t1 conjI [OF s2 t2]]])
qed


section \<open>One suspension at a time\<close>


lemma single_suspension_created:
  "promises m = [(n, k)] \<Longrightarrow> isSuspended (st m) \<Longrightarrow> suspensionControl m = Some n
   \<Longrightarrow> n < nextId m \<Longrightarrow> single_suspension m"
  by (simp add: single_suspension_def)


lemma single_suspension_cases:
  assumes "single_suspension m"
  obtains "promises m = []"
  | n k where "promises m = [(n, k)]" "isSuspended (st m)" "suspensionControl m = Some n"
      "n < nextId m"
  using assms by (auto simp: single_suspension_def split: list.splits)

lemma remove_key_single [simp]: "remove_key n [(n, k)] = []"
  by (simp add: remove_key_def)

lemma remove_key_Nil [simp]: "remove_key n [] = []"
  by (simp add: remove_key_def)

lemma cancelSuspension_clears:
  "single_suspension m \<Longrightarrow> promises (cancelSuspension m) = []"
  by (erule single_suspension_cases) (simp_all add: cancelSuspension_promises split: option.split)

lemma cancelSuspension_quiet: "promises m = [] \<Longrightarrow> promises (cancelSuspension m) = []"
  by (simp add: cancelSuspension_promises split: option.split)







lemma forced_single:
  assumes "single_suspension m"
  shows "promises (snd (stop m)) = []" "promises (snd (finish m)) = []" "promises (snd (pause m)) = []"
  by (simp_all add: cancelSuspension_clears [OF assms])

lemma forced_quiet:
  assumes "promises m = []"
  shows "promises (snd (stop m)) = []" "promises (snd (finish m)) = []" "promises (snd (pause m)) = []"
  by (simp_all add: cancelSuspension_quiet [OF assms])


subsection \<open>Reactions make no suspension\<close>

lemma react_start_promises [simp]: "promises (react_start backwards p r m) = promises m"
  by (simp add: react_start_def split: resolution.split)

lemma react_move_promises [simp]: "promises (snd (react_move f p r m)) = promises m"
proof -
  have "promises (snd (case x of (None, m1) \<Rightarrow> (None, m1) | (Some e, m1) \<Rightarrow> move_abort p m1))
          = promises (snd x)" for x :: "'a outcome"
    by (cases x; cases "fst x") auto
  then show ?thesis
    by (simp add: react_move_def split: resolution.split)
qed

lemma react_step_promises [simp]: "promises (snd (react_step r m)) = promises m"
proof -
  have *: "promises (snd (case moveInternal x False m1 of
                          (None, m2) \<Rightarrow> (None, m2)
                        | (Some e, m2) \<Rightarrow> (None, m2\<lparr> st := (st m2)\<lparr> isSuspended := False \<rparr> \<rparr>)))
          = promises m1" for x and m1 :: "'a PlaybackControls"
    using moveInternal_keeps(3) [of x False m1]
    by (cases "moveInternal x False m1"; cases "fst (moveInternal x False m1)") auto
  show ?thesis
    unfolding react_step_def Let_def
    using * [of _ "m\<lparr> st := (st m)\<lparr> isSuspended := False \<rparr> \<rparr>"]
    by (auto split: resolution.split jsval.split)
qed

lemma tick_catch_promises [simp]: "promises (snd (tick_catch m)) = promises m"
  by (simp add: tick_catch_def cancelSuspension_promises)

lemma and_then_promises:
  assumes "promises (snd r) = ps" and "\<And>m'. promises (snd (f m')) = promises m'"
  shows "promises (snd (and_then r f)) = ps"
  using assms by (cases r; cases "fst r") (auto simp: and_then_def)

lemma react_tick_promises [simp]: "promises (snd (react_tick c f s r now m)) = promises m"
proof -
  define m1 where "m1 = m\<lparr> st := (st m)\<lparr> isSuspended := False \<rparr> \<rparr>"
  have guard: "promises (snd (case x of (None, m4) \<Rightarrow> (None, m4) | (Some e, m4) \<Rightarrow> tick_catch m4))
                 = promises (snd x)" for x :: "'a outcome"
    by (cases x; cases "fst x") auto
  have cont: "promises (snd (and_then (moveInternal f True m2)
                 (\<lambda>m3. (None, requestAnimationFrame t c m3)))) = promises m2"
    for m2 :: "'a PlaybackControls" and t
    by (rule and_then_promises) simp_all
  have p1: "promises (snd (pause m1)) = promises m"
    by (simp add: m1_def cancelSuspension_promises)
  show ?thesis
  proof (cases r)
    case Rejected
    then show ?thesis by (simp add: react_tick_def)
  next
    case (Fulfilled v)
    show ?thesis
      unfolding react_tick_def Let_def m1_def [symmetric] Fulfilled
      by (simp add: guard cont p1 split: option.split) (simp add: m1_def cancelSuspension_promises)
  qed
qed


lemma settle_pending:
  assumes "map_of (promises m) p = Some k"
  shows "settle p r now m =
     (case k of
        StartReaction backwards previousState \<Rightarrow>
          (None, react_start backwards previousState r (m\<lparr> promises := remove_key p (promises m) \<rparr>))
      | MoveReaction f previousState \<Rightarrow>
          react_move f previousState r (m\<lparr> promises := remove_key p (promises m) \<rparr>)
      | StepReaction \<Rightarrow> react_step r (m\<lparr> promises := remove_key p (promises m) \<rparr>)
      | TickReaction c f suspensionStart \<Rightarrow>
          react_tick c f suspensionStart r now (m\<lparr> promises := remove_key p (promises m) \<rparr>))"
  using assms by (simp add: settle_def Let_def)

lemma settle_unknown: "map_of (promises m) p = None \<Longrightarrow> settle p r now m = (None, m)"
  by (simp add: settle_def)



subsection \<open>The clock, when nothing is pending\<close>





subsection \<open>Listener, duration, clicks\<close>





lemma single_suspension_durationAttr [simp]:
  "single_suspension (m\<lparr> durationAttr := v \<rparr>) = single_suspension m"
  by (simp add: single_suspension_def split: list.split)


lemma single_suspension_dispatchEvent [simp]:
  "single_suspension (dispatchEvent ty s m) = single_suspension m"
  by (simp add: single_suspension_def split: list.split)



subsection \<open>Clock callbacks while a suspension is pending\<close>

lemma single_suspension_world_calls [simp]:
  "single_suspension (m\<lparr> world := w, calls := cs \<rparr>) = single_suspension m"
  by (simp add: single_suspension_def split: list.split)

lemma moveInternal_skip_nextId [simp]: "nextId (snd (moveInternal f True m)) = nextId m"
  by (simp add: moveInternal_def moveInternal_commit_def Let_def)








subsection \<open>What an operation leaves pending\<close>

lemma settle_stale:
  assumes "promises m = [] \<or> (\<exists>k. promises m = [(N, k)])" and "n < N"
  shows "settle n r t m = (None, m)"
proof -
  have "map_of (promises m) n = None"
    using assms by auto
  then show ?thesis by (rule settle_unknown)
qed







subsection \<open>Handlers that run later\<close>

lemma react_promises [simp]: "promises (snd (react k r now m)) = promises m"
  by (cases k) (simp_all add: react_def)

lemma settle_react:
  "map_of (promises m) p = Some k \<Longrightarrow>
   settle p r now m = react k r now (m\<lparr> promises := remove_key p (promises m) \<rparr>)"
  by (simp add: settle_pending react_def)

lemma listener_settles_unknown:
  "map_of (promises (controls s)) p = None \<Longrightarrow> listener_settles p r s = s"
  by (simp add: listener_settles_def)

lemma run_reaction_unknown: "map_of (jobs s) p = None \<Longrightarrow> run_reaction p now s = (None, s)"
  by (simp add: run_reaction_def)

lemma remove_key_triple [simp]: "remove_key p [(p, k, r)] = []"
  by (simp add: remove_key_def)

text \<open>
  The compound step \<open>settle\<close> is the settlement followed at once by the handlers, when no
  other handler is waiting.
\<close>

lemma settle_two_steps:
  assumes "jobs s = []"
  shows "perform_steps [ListenerSettles p r, ReactionRuns p now] s
           = s\<lparr> controls := snd (settle p r now (controls s)) \<rparr>"
proof (cases "map_of (promises (controls s)) p")
  case None
  then show ?thesis
    using assms by (simp add: listener_settles_unknown run_reaction_unknown settle_unknown)
next
  case (Some k)
  have ls: "listener_settles p r s
              = \<lparr> controls = (controls s)\<lparr> promises := remove_key p (promises (controls s)) \<rparr>,
                  jobs = [(p, k, r)] \<rparr>"
    using Some assms by (simp add: listener_settles_def)
  show ?thesis
    using assms by (simp add: ls run_reaction_def split_beta settle_react [OF Some])
qed


subsection \<open>Undisturbed runs\<close>











subsection \<open>A superseded jump\<close>






subsection \<open>The clock keeps the listener\<close>

lemma and_then_animationCallback:
  assumes "animationCallback (snd r) = l"
    and "\<And>m'. animationCallback (snd (f m')) = animationCallback m'"
  shows "animationCallback (snd (and_then r f)) = l"
  using assms by (cases r; cases "fst r") (auto simp: and_then_def)

lemma run_decide_animationCallback [simp]:
  "animationCallback (snd (run_decide c cl f now r m)) = animationCallback m"
proof -
  have cont: "animationCallback (snd (and_then (moveInternal f True m)
                 (\<lambda>m1. (None, requestAnimationFrame (cl_timeInfo cl) c m1))))
              = animationCallback m"
    by (rule and_then_animationCallback) simp_all
  show ?thesis
    by (simp add: run_decide_def cont split: hook_result.split bool.split)
qed

lemma run_move_animationCallback [simp]:
  "animationCallback (snd (run_move c cl f now m)) = animationCallback m"
  by (simp add: run_move_def split_beta split: option.split)

lemma run_animationCallback [simp]:
  "animationCallback (snd (run c timestamp now m)) = animationCallback m"
  by (simp add: run_def Let_def split: option.split)

lemma fire_frame_animationCallback [simp]:
  "animationCallback (snd (fire_frame h timestamp now m)) = animationCallback m"
  by (simp add: fire_frame_def split: option.split)

subsection \<open>The cancelled suspension\<close>





end
